theory Spec2Isabelle
  imports Complex_Main
begin

section \<open>Strings\<close>

text \<open>
  A JavaScript string is modelled as a \<^typ>\<open>string\<close>: one \<^typ>\<open>char\<close> per UTF-16 code
  unit, for code units below 256.  \<open>length\<close> is the source's \<open>.length\<close>.
\<close>

definition isWhitespace :: "char \<Rightarrow> bool" where
  \<comment> \<open>the code units below 256 that \<open>String.prototype.trim\<close> strips:
      TAB, LF, VT, FF, CR, SPACE, NBSP\<close>
  "isWhitespace c \<longleftrightarrow>
     c = CHR 0x09 \<or> c = CHR 0x0A \<or> c = CHR 0x0B \<or> c = CHR 0x0C \<or> c = CHR 0x0D
     \<or> c = CHR 0x20 \<or> c = CHR 0xA0"

definition trim :: "string \<Rightarrow> string" where
  "trim s = rev (dropWhile isWhitespace (rev (dropWhile isWhitespace s)))"

definition slice :: "string \<Rightarrow> nat \<Rightarrow> nat \<Rightarrow> string" where
  \<comment> \<open>\<open>text.slice(start, end)\<close> for non-negative indices; both are clamped to the length\<close>
  "slice text start endp = take (endp - start) (drop start text)"

fun lastIndexOf :: "string \<Rightarrow> char \<Rightarrow> nat \<Rightarrow> int" where
  \<comment> \<open>\<open>text.lastIndexOf(c, fromIndex)\<close> for a one-character search string: the greatest
      index \<open>i \<le> fromIndex\<close> with \<open>text[i] = c\<close>, or \<open>-1\<close>\<close>
  "lastIndexOf text c 0 = (if 0 < length text \<and> text ! 0 = c then 0 else - 1)"
| "lastIndexOf text c (Suc i) =
     (if Suc i < length text \<and> text ! Suc i = c then int (Suc i) else lastIndexOf text c i)"

section \<open>DocumentProcessor.splitTextIntoChunks\<close>

text \<open>
  \<open>chunkSize\<close> and \<open>overlap\<close> are non-negative integers.  The test
  \<open>bestCutPoint > start + chunkSize * 0.5\<close> is written without the fraction as
  \<open>2 * bestCutPoint > 2 * start + chunkSize\<close>; the subtraction in
  \<open>start + chunkSize - overlap\<close> is done in \<^typ>\<open>int\<close>, as the source's can go below zero.
\<close>

definition rawEnd :: "string \<Rightarrow> nat \<Rightarrow> nat \<Rightarrow> nat" where
  \<comment> \<open>\<open>Math.min(start + chunkSize, text.length)\<close>\<close>
  "rawEnd text chunkSize start = min (start + chunkSize) (length text)"

definition bestCutPoint :: "string \<Rightarrow> nat \<Rightarrow> int" where
  "bestCutPoint text endp =
     (let lastSpaceIndex = lastIndexOf text CHR '' '' endp;
          lastNewlineIndex = lastIndexOf text CHR 0x0A endp;
          lastPeriodIndex = lastIndexOf text CHR ''.'' endp
      in max (max lastSpaceIndex lastNewlineIndex) lastPeriodIndex)"

definition cutEnd :: "string \<Rightarrow> nat \<Rightarrow> nat \<Rightarrow> nat" where
  \<comment> \<open>the value of \<open>end\<close> after the word-boundary block of one loop iteration\<close>
  "cutEnd text chunkSize start =
     (let endp = rawEnd text chunkSize start in
      if endp < length text then
        (if 2 * bestCutPoint text endp > 2 * int start + int chunkSize
         then nat (bestCutPoint text endp + 1) else endp)
      else endp)"

definition nextStart :: "string \<Rightarrow> nat \<Rightarrow> nat \<Rightarrow> nat \<Rightarrow> nat" where
  \<comment> \<open>\<open>Math.max(start + chunkSize - overlap, end)\<close>\<close>
  "nextStart text chunkSize overlap start =
     nat (max (int start + int chunkSize - int overlap) (int (cutEnd text chunkSize start)))"

definition pushChunk :: "string list \<Rightarrow> string \<Rightarrow> string list" where
  \<comment> \<open>\<open>if (chunk.length > 0) chunks.push(chunk)\<close>\<close>
  "pushChunk chunks chunk = (if length chunk > 0 then chunks @ [chunk] else chunks)"

partial_function (option) splitLoop ::
  "string \<Rightarrow> nat \<Rightarrow> nat \<Rightarrow> nat \<Rightarrow> string list \<Rightarrow> string list option" where
  "splitLoop text chunkSize overlap start chunks =
     (if start < length text then
        splitLoop text chunkSize overlap (nextStart text chunkSize overlap start)
          (pushChunk chunks (trim (slice text start (cutEnd text chunkSize start))))
      else Some chunks)"

declare splitLoop.simps [code]

definition splitTextIntoChunks :: "string \<Rightarrow> nat \<Rightarrow> nat \<Rightarrow> string list option" where
  \<comment> \<open>\<open>None\<close> is a loop that never returns\<close>
  "splitTextIntoChunks text chunkSize overlap =
     (if length text \<le> chunkSize then Some [text]
      else splitLoop text chunkSize overlap 0 [])"

definition isBoundary :: "char \<Rightarrow> bool" where
  \<comment> \<open>the three characters the loop searches for: space, newline, period\<close>
  "isBoundary c \<longleftrightarrow> c = CHR '' '' \<or> c = CHR 0x0A \<or> c = CHR ''.''"

section \<open>Errors and the outside world\<close>

text \<open>
  A thrown \<open>Error\<close> is a value carrying its message; an \<open>async\<close> function that can reject
  returns \<open>error + 'a\<close>.  The three external services (embedding provider, vector index,
  LLM providers) are functions from the request to its outcome, and every request that is
  issued is appended to a log, so that "no request was issued" is "the log did not change".
  The vector gateway's calls of the embedding gateway's batch operation are logged too.
  A timestamp is a parameter of the function that stamps it; processing times and the
  lines written by the logger are left out.
\<close>

datatype error = Error (message: string)

datatype Role = System | User | Assistant

record MessageMetadata =
  meta_model :: string
  meta_tokens_used :: nat
  meta_sources :: nat

record ChatMessage =
  role :: Role
  content :: string
  timestamp :: "string option"
  metadata :: "MessageMetadata option"

record GenerationOptions =
  max_tokens :: "nat option"
  temperature :: "real option"
  top_p :: "real option"
  top_k :: "nat option"
  stop_sequences :: "string list option"
  model :: "string option"

record Point =
  point_id :: string
  point_vector :: "real list"
  point_content :: string
  point_payload :: "(string \<times> string) list"

record SearchParams =
  sp_vector :: "real list"
  sp_limit :: nat
  sp_score_threshold :: real
  sp_filter :: "(string \<times> string) list option"

datatype IndexRequest =
    Upsert "Point list"
  | Search SearchParams
  | DeleteByDocument string
  | DeletePoints "string list"

record GenRequest =
  greq_provider :: string
  greq_model :: string
  greq_messages :: "ChatMessage list"
  greq_options :: GenerationOptions

record World =
  embedLog :: "string list"  \<comment> \<open>the texts sent to the embedding provider\<close>
  batchCalls :: "string list list"  \<comment> \<open>the text lists handed to \<open>createEmbeddingBatch\<close>\<close>
  indexLog :: "IndexRequest list"
  genLog :: "GenRequest list"

section \<open>EmbeddingService\<close>

record EmbeddingResult =
  embedding :: "real list"
  emb_model :: string
  emb_tokens_used :: nat

record EmbeddingBatch =
  embeddings :: "EmbeddingResult list"
  total_tokens :: nat

record EmbeddingService =
  emb_initialized :: bool  \<comment> \<open>\<open>isInitialized && genAI !== null\<close>\<close>
  embedContent :: "string \<Rightarrow> error + real list"  \<comment> \<open>the provider's answer to a request\<close>

definition createEmbedding ::
  "EmbeddingService \<Rightarrow> string \<Rightarrow> World \<Rightarrow> (error + EmbeddingResult) \<times> World" where
  "createEmbedding svc text w =
     (if \<not> emb_initialized svc then (Inl (Error ''Embedding service is not initialized''), w)
      else if text = [] \<or> length (trim text) = 0
        then (Inl (Error ''Text is required for embedding''), w)
      else if length text > 10000
        then (Inl (Error ''Text too long for embedding (max: 10000 characters)''), w)
      else
        (let w' = w\<lparr>embedLog := embedLog w @ [text]\<rparr> in
         case embedContent svc text of
           Inl e \<Rightarrow> (Inl (Error (''Embedding generation failed: '' @ message e)), w')
         | Inr values \<Rightarrow>
             if length values = 0
             then (Inl (Error (''Embedding generation failed: ''
                          @ ''Failed to generate embedding - empty result'')), w')
             else (Inr \<lparr>embedding = values, emb_model = ''embedding-001'',
                        emb_tokens_used = (length text + 3) div 4\<rparr>, w')))"

function sliceBatches :: "nat \<Rightarrow> 'a list \<Rightarrow> nat \<Rightarrow> 'a list list" where
  \<comment> \<open>\<open>for (let i = 0; i < xs.length; i += batchSize) batches.push(xs.slice(i, i + batchSize))\<close>,
      from index \<open>i\<close> on.  \<open>batchSize\<close> is the literal 5 or 100 at both places of use; the
      test \<open>0 < batchSize\<close> only makes the HOL function total.\<close>
  "sliceBatches batchSize xs i =
     (if i < length xs \<and> 0 < batchSize
      then take batchSize (drop i xs) # sliceBatches batchSize xs (i + batchSize)
      else [])"
  by pat_completeness auto
termination
  by (relation "measure (\<lambda>(batchSize, xs, i). length xs - i)") auto

declare sliceBatches.simps [simp del]

fun embedEach ::
  "EmbeddingService \<Rightarrow> string list \<Rightarrow> World \<Rightarrow> (error + EmbeddingResult) list \<times> World" where
  \<comment> \<open>\<open>batch.map(text => this.createEmbedding(text, model))\<close>: every call of the sub-batch
      is started, in order\<close>
  "embedEach svc [] w = ([], w)"
| "embedEach svc (t # ts) w =
     (let (r, w1) = createEmbedding svc t w; (rs, w2) = embedEach svc ts w1 in (r # rs, w2))"

definition rejectsAtOnce :: "EmbeddingService \<Rightarrow> string \<Rightarrow> bool" where
  \<comment> \<open>\<open>createEmbedding\<close> throws in one of its three checks, before its first \<open>await\<close>:
      the promise it returns is rejected already\<close>
  "rejectsAtOnce svc text \<longleftrightarrow>
     \<not> emb_initialized svc \<or> (text = [] \<or> length (trim text) = 0) \<or> length text > 10000"

fun allOrFirstRejection :: "(error + 'a) list \<Rightarrow> error + 'a list" where
  \<comment> \<open>all values, or the first rejection in list order\<close>
  "allOrFirstRejection [] = Inr []"
| "allOrFirstRejection (Inl e # rs) = Inl e"
| "allOrFirstRejection (Inr x # rs) =
     (case allOrFirstRejection rs of Inl e \<Rightarrow> Inl e | Inr xs \<Rightarrow> Inr (x # xs))"

definition promiseAll :: "(error + 'a) list \<Rightarrow> (error + 'a) list \<Rightarrow> error + 'a list" where
  \<comment> \<open>\<open>Promise.all(promises)\<close>, of which \<open>early\<close> are rejected already when it is called: it
      rejects with the first of these.  When there is none it rejects with the rejection
      that arrives first (the provider decides which; the model takes the list order), or
      is fulfilled with all the values.\<close>
  "promiseAll early promises =
     (case allOrFirstRejection early of
        Inl e \<Rightarrow> Inl e
      | Inr vs \<Rightarrow> allOrFirstRejection promises)"

fun embedBatches ::
  "EmbeddingService \<Rightarrow> string list list \<Rightarrow> EmbeddingResult list \<Rightarrow> nat \<Rightarrow> World
     \<Rightarrow> (error + EmbeddingBatch) \<times> World" where
  "embedBatches svc [] embs totalTokens w =
     (Inr \<lparr>embeddings = embs, total_tokens = totalTokens\<rparr>, w)"
| "embedBatches svc (batch # rest) embs totalTokens w =
     (let (batchPromises, w1) = embedEach svc batch w;
          early = map snd (filter (\<lambda>(text, promise). rejectsAtOnce svc text)
                             (zip batch batchPromises)) in
      case promiseAll early batchPromises of
        Inl e \<Rightarrow> (Inl e, w1)
      | Inr batchResults \<Rightarrow>
          embedBatches svc rest (embs @ batchResults)
            (totalTokens + sum_list (map emb_tokens_used batchResults)) w1)"

definition createEmbeddingBatch ::
  "EmbeddingService \<Rightarrow> string list \<Rightarrow> World \<Rightarrow> (error + EmbeddingBatch) \<times> World" where
  "createEmbeddingBatch svc texts w =
     (if length texts = 0 then (Inl (Error ''Texts array is required for batch embedding''), w)
      else if length texts > 100
        then (Inl (Error ''Too many texts for batch embedding (max: 100)''), w)
      else
        (case embedBatches svc (sliceBatches 5 texts 0) [] 0 w of
           (Inl e, w') \<Rightarrow> (Inl (Error (''Batch embedding failed: '' @ message e)), w')
         | (Inr r, w') \<Rightarrow> (Inr r, w')))"

definition embeddable :: "EmbeddingService \<Rightarrow> string \<Rightarrow> bool" where
  \<comment> \<open>\<open>createEmbedding\<close> passes its checks on the text and the provider answers with a
      non-empty vector\<close>
  "embeddable svc text \<longleftrightarrow>
     \<not> rejectsAtOnce svc text \<and> (\<exists>values. embedContent svc text = Inr values \<and> values \<noteq> [])"

section \<open>VectorService\<close>

text \<open>
  A chunk's metadata and a point's payload are key/value lists that the gateway only passes
  on.  Of a search hit's payload the model keeps \<open>content\<close>, \<open>source\<close> and \<open>page\<close>.
\<close>

record DocumentChunk =
  chunk_id :: string
  chunk_content :: string
  chunk_metadata :: "(string \<times> string) list"

record Hit =
  hit_id :: string
  hit_score :: real
  hit_content :: "string option"
  hit_source :: "string option"
  hit_page :: "nat option"

record SearchResult =
  sr_id :: string
  sr_content :: string
  sr_score :: real
  sr_source :: string
  sr_page :: "nat option"
  sr_chunk_id :: string

record SearchOptions =
  opt_limit :: "nat option"
  opt_threshold :: "real option"
  opt_filter :: "(string \<times> string) list option"

record VectorService =
  vs_initialized :: bool  \<comment> \<open>\<open>isInitialized && client !== null\<close>\<close>
  embeddingService :: EmbeddingService
  qdrantUpsert :: "Point list \<Rightarrow> error + unit"
  qdrantSearch :: "SearchParams \<Rightarrow> error + Hit list"
  qdrantDelete :: "IndexRequest \<Rightarrow> error + nat"

definition orNat :: "nat option \<Rightarrow> nat \<Rightarrow> nat" where
  \<comment> \<open>\<open>x || d\<close> on an optional number: \<open>undefined\<close> and \<open>0\<close> are falsy\<close>
  "orNat x d = (case x of None \<Rightarrow> d | Some n \<Rightarrow> if n = 0 then d else n)"

definition orReal :: "real option \<Rightarrow> real \<Rightarrow> real" where
  "orReal x d = (case x of None \<Rightarrow> d | Some r \<Rightarrow> if r = 0 then d else r)"

definition orString :: "string option \<Rightarrow> string \<Rightarrow> string" where
  \<comment> \<open>\<open>x || d\<close> on an optional string: \<open>undefined\<close> and \<open>''\<close> are falsy\<close>
  "orString x d = (case x of None \<Rightarrow> d | Some s \<Rightarrow> if s = [] then d else s)"

definition isAvailable :: "VectorService \<Rightarrow> bool" where
  "isAvailable svc = vs_initialized svc"

definition makePoints :: "DocumentChunk list \<Rightarrow> EmbeddingBatch \<Rightarrow> Point list" where
  \<comment> \<open>\<open>vector: embeddingResult.embeddings[index]?.embedding || []\<close>\<close>
  "makePoints batch embeddingResult =
     map (\<lambda>(chunk, index).
            \<lparr>point_id = chunk_id chunk,
             point_vector = (if index < length (embeddings embeddingResult)
                             then embedding (embeddings embeddingResult ! index) else []),
             point_content = chunk_content chunk,
             point_payload = chunk_metadata chunk\<rparr>)
         (zip batch [0..<length batch])"

fun addBatches ::
  "VectorService \<Rightarrow> DocumentChunk list list \<Rightarrow> nat \<Rightarrow> World \<Rightarrow> (error + nat) \<times> World" where
  "addBatches svc [] addedCount w = (Inr addedCount, w)"
| "addBatches svc (batch # rest) addedCount w =
     (let texts = map chunk_content batch;
          w0 = w\<lparr>batchCalls := batchCalls w @ [texts]\<rparr> in
      case createEmbeddingBatch (embeddingService svc) texts w0 of
        (Inl e, w1) \<Rightarrow> (Inl e, w1)
      | (Inr embeddingResult, w1) \<Rightarrow>
          (let points = makePoints batch embeddingResult;
               w2 = w1\<lparr>indexLog := indexLog w1 @ [Upsert points]\<rparr> in
           case qdrantUpsert svc points of
             Inl e \<Rightarrow> (Inl e, w2)
           | Inr u \<Rightarrow> addBatches svc rest (addedCount + length batch) w2))"

definition addDocuments ::
  "VectorService \<Rightarrow> DocumentChunk list \<Rightarrow> World \<Rightarrow> (error + nat) \<times> World" where
  "addDocuments svc chunks w =
     (if \<not> vs_initialized svc then (Inl (Error ''Vector service is not initialized''), w)
      else if length chunks = 0 then (Inl (Error ''No document chunks provided''), w)
      else
        (case addBatches svc (sliceBatches 100 chunks 0) 0 w of
           (Inl e, w') \<Rightarrow> (Inl (Error (''Failed to add documents: '' @ message e)), w')
         | (Inr addedCount, w') \<Rightarrow> (Inr addedCount, w')))"

definition toSearchResult :: "Hit \<Rightarrow> SearchResult" where
  "toSearchResult hit =
     \<lparr>sr_id = hit_id hit,
      sr_content = orString (hit_content hit) [],
      sr_score = hit_score hit,
      sr_source = orString (hit_source hit) [],
      sr_page = hit_page hit,
      sr_chunk_id = hit_id hit\<rparr>"

definition searchParamsOf :: "EmbeddingResult \<Rightarrow> SearchOptions \<Rightarrow> SearchParams" where
  \<comment> \<open>\<open>limit: options.limit || 5, threshold: options.threshold || 0.7\<close>\<close>
  "searchParamsOf queryEmbedding options =
     \<lparr>sp_vector = embedding queryEmbedding,
      sp_limit = orNat (opt_limit options) 5,
      sp_score_threshold = orReal (opt_threshold options) 0.7,
      sp_filter = opt_filter options\<rparr>"

definition search ::
  "VectorService \<Rightarrow> string \<Rightarrow> SearchOptions \<Rightarrow> World \<Rightarrow> (error + SearchResult list) \<times> World" where
  "search svc query options w =
     (if \<not> vs_initialized svc then (Inl (Error ''Vector service is not initialized''), w)
      else if query = [] \<or> length (trim query) = 0
        then (Inl (Error ''Search query is required''), w)
      else
        (case createEmbedding (embeddingService svc) query w of
           (Inl e, w1) \<Rightarrow> (Inl (Error (''Vector search failed: '' @ message e)), w1)
         | (Inr queryEmbedding, w1) \<Rightarrow>
             (let searchParams = searchParamsOf queryEmbedding options;
                  w2 = w1\<lparr>indexLog := indexLog w1 @ [Search searchParams]\<rparr> in
              case qdrantSearch svc searchParams of
                Inl e \<Rightarrow> (Inl (Error (''Vector search failed: '' @ message e)), w2)
              | Inr searchResult \<Rightarrow> (Inr (map toSearchResult searchResult), w2))))"

definition underlyingCallFails ::
  "VectorService \<Rightarrow> string \<Rightarrow> SearchOptions \<Rightarrow> World \<Rightarrow> bool" where
  \<comment> \<open>the embedding call of a search fails, or its index call does\<close>
  "underlyingCallFails svc query options w =
     (case createEmbedding (embeddingService svc) query w of
        (Inl e, w1) \<Rightarrow> True
      | (Inr queryEmbedding, w1) \<Rightarrow>
          isl (qdrantSearch svc (searchParamsOf queryEmbedding options)))"

definition deleteDocument ::
  "VectorService \<Rightarrow> string \<Rightarrow> World \<Rightarrow> (error + bool) \<times> World" where
  "deleteDocument svc documentId w =
     (if \<not> vs_initialized svc then (Inl (Error ''Vector service is not initialized''), w)
      else
        (let w' = w\<lparr>indexLog := indexLog w @ [DeleteByDocument documentId]\<rparr> in
         case qdrantDelete svc (DeleteByDocument documentId) of
           Inl e \<Rightarrow> (Inr False, w')
         | Inr operation_id \<Rightarrow> (Inr True, w')))"

definition deleteChunks ::
  "VectorService \<Rightarrow> string list \<Rightarrow> World \<Rightarrow> (error + nat) \<times> World" where
  "deleteChunks svc chunkIds w =
     (if \<not> vs_initialized svc then (Inl (Error ''Vector service is not initialized''), w)
      else if length chunkIds = 0 then (Inr 0, w)
      else
        (let w' = w\<lparr>indexLog := indexLog w @ [DeletePoints chunkIds]\<rparr> in
         case qdrantDelete svc (DeletePoints chunkIds) of
           Inl e \<Rightarrow> (Inr 0, w')
         | Inr operation_id \<Rightarrow> (Inr (length chunkIds), w')))"

section \<open>GenerationService\<close>

text \<open>
  A provider client answers a request (model, messages, options) with an error or with the
  parts of its response that the adapters read.  How each adapter lays the request out for
  its provider is not modelled.
\<close>

record RawResponse =
  raw_has_choice :: bool  \<comment> \<open>\<open>choices[0]\<close> / \<open>content[0]\<close> is present\<close>
  raw_text :: string
  raw_tokens :: nat
  raw_finish :: string

type_synonym Client = "string \<Rightarrow> ChatMessage list \<Rightarrow> GenerationOptions \<Rightarrow> error + RawResponse"

record GenerationResult =
  gen_content :: string
  gen_model :: string
  gen_tokens_used :: nat
  gen_provider :: string
  gen_finish_reason :: string

record GenerationService =
  googleAI :: "Client option"
  openai :: "Client option"
  anthropic :: "Client option"
  cohere :: "Client option"
  availableProviders :: "string list"

definition initialize ::
  "Client option \<Rightarrow> Client option \<Rightarrow> Client option \<Rightarrow> Client option \<Rightarrow> GenerationService" where
  \<comment> \<open>a client is given exactly when its API key is configured\<close>
  "initialize google_key openai_key anthropic_key cohere_key =
     \<lparr>googleAI = google_key, openai = openai_key, anthropic = anthropic_key, cohere = cohere_key,
      availableProviders =
        (if google_key \<noteq> None then [''google''] else [])
        @ (if openai_key \<noteq> None then [''openai''] else [])
        @ (if anthropic_key \<noteq> None then [''anthropic''] else [])
        @ (if cohere_key \<noteq> None then [''cohere''] else [])\<rparr>"

fun includesStr :: "string \<Rightarrow> string \<Rightarrow> bool" where
  \<comment> \<open>\<open>s.includes(sub)\<close>\<close>
  "includesStr [] sub = (sub = [])"
| "includesStr (c # cs) sub = (take (length sub) (c # cs) = sub \<or> includesStr cs sub)"

definition getDefaultModelForProvider :: "string \<Rightarrow> string" where
  "getDefaultModelForProvider provider =
     (if provider = ''google'' then ''gemini-2.0-flash-exp''
      else if provider = ''openai'' then ''gpt-4o''
      else if provider = ''anthropic'' then ''claude-3-5-haiku-20241022''
      else if provider = ''cohere'' then ''command-r-plus-08-2024''
      else ''gemini-2.0-flash-exp'')"

definition firstProvider :: "GenerationService \<Rightarrow> string" where
  \<comment> \<open>\<open>this.availableProviders[0] || 'google'\<close>\<close>
  "firstProvider svc =
     (case availableProviders svc of [] \<Rightarrow> ''google'' | p # ps \<Rightarrow> if p = [] then ''google'' else p)"

definition parseModelString :: "GenerationService \<Rightarrow> string \<Rightarrow> string \<times> string" where
  "parseModelString svc modelString =
     (if includesStr modelString ''gpt'' then (''openai'', modelString)
      else if includesStr modelString ''claude'' then (''anthropic'', modelString)
      else if includesStr modelString ''command'' then (''cohere'', modelString)
      else if includesStr modelString ''gemini'' then (''google'', modelString)
      else (firstProvider svc, getDefaultModelForProvider (firstProvider svc)))"

definition callClient ::
  "Client \<Rightarrow> string \<Rightarrow> string \<Rightarrow> ChatMessage list \<Rightarrow> GenerationOptions \<Rightarrow> World
     \<Rightarrow> (error + RawResponse) \<times> World" where
  \<comment> \<open>the request goes out to the provider and is logged\<close>
  "callClient client provider mdl messages options w =
     (client mdl messages options,
      w\<lparr>genLog := genLog w @ [\<lparr>greq_provider = provider, greq_model = mdl,
                                greq_messages = messages, greq_options = options\<rparr>]\<rparr>)"

definition generateWithGoogle ::
  "GenerationService \<Rightarrow> ChatMessage list \<Rightarrow> string \<Rightarrow> GenerationOptions \<Rightarrow> World
     \<Rightarrow> (error + GenerationResult) \<times> World" where
  "generateWithGoogle svc messages mdl options w =
     (case googleAI svc of
        None \<Rightarrow> (Inl (Error ''Google AI not initialized''), w)
      | Some client \<Rightarrow>
          (case callClient client ''google'' mdl messages options w of
             (Inl e, w') \<Rightarrow> (Inl e, w')
           | (Inr response, w') \<Rightarrow>
               (Inr \<lparr>gen_content = raw_text response, gen_model = mdl,
                     gen_tokens_used = raw_tokens response, gen_provider = ''google'',
                     gen_finish_reason = ''stop''\<rparr>, w')))"

definition generateWithOpenAI ::
  "GenerationService \<Rightarrow> ChatMessage list \<Rightarrow> string \<Rightarrow> GenerationOptions \<Rightarrow> World
     \<Rightarrow> (error + GenerationResult) \<times> World" where
  "generateWithOpenAI svc messages mdl options w =
     (case openai svc of
        None \<Rightarrow> (Inl (Error ''OpenAI not initialized''), w)
      | Some client \<Rightarrow>
          (case callClient client ''openai'' mdl messages options w of
             (Inl e, w') \<Rightarrow> (Inl e, w')
           | (Inr response, w') \<Rightarrow>
               if \<not> raw_has_choice response
               then (Inl (Error ''No response choices received from OpenAI''), w')
               else (Inr \<lparr>gen_content = raw_text response, gen_model = mdl,
                          gen_tokens_used = raw_tokens response, gen_provider = ''openai'',
                          gen_finish_reason = orString (Some (raw_finish response)) ''stop''\<rparr>,
                     w')))"

definition generateWithAnthropic ::
  "GenerationService \<Rightarrow> ChatMessage list \<Rightarrow> string \<Rightarrow> GenerationOptions \<Rightarrow> World
     \<Rightarrow> (error + GenerationResult) \<times> World" where
  "generateWithAnthropic svc messages mdl options w =
     (case anthropic svc of
        None \<Rightarrow> (Inl (Error ''Anthropic not initialized''), w)
      | Some client \<Rightarrow>
          (case callClient client ''anthropic'' mdl messages options w of
             (Inl e, w') \<Rightarrow> (Inl e, w')
           | (Inr response, w') \<Rightarrow>
               if \<not> raw_has_choice response
               then (Inl (Error ''No content received from Anthropic''), w')
               else (Inr \<lparr>gen_content = raw_text response, gen_model = mdl,
                          gen_tokens_used = raw_tokens response, gen_provider = ''anthropic'',
                          gen_finish_reason = orString (Some (raw_finish response)) ''stop''\<rparr>,
                     w')))"

definition generateWithCohere ::
  "GenerationService \<Rightarrow> ChatMessage list \<Rightarrow> string \<Rightarrow> GenerationOptions \<Rightarrow> World
     \<Rightarrow> (error + GenerationResult) \<times> World" where
  "generateWithCohere svc messages mdl options w =
     (case cohere svc of
        None \<Rightarrow> (Inl (Error ''Cohere not initialized''), w)
      | Some client \<Rightarrow>
          if messages = [] then (Inl (Error ''No messages provided''), w)
          else
            (case callClient client ''cohere'' mdl messages options w of
               (Inl e, w') \<Rightarrow> (Inl e, w')
             | (Inr response, w') \<Rightarrow>
                 (Inr \<lparr>gen_content = (if raw_has_choice response then raw_text response else []),
                       gen_model = mdl,
                       gen_tokens_used = raw_tokens response, gen_provider = ''cohere'',
                       gen_finish_reason = orString (Some (raw_finish response)) ''COMPLETE''\<rparr>,
                  w')))"

definition gs_generateResponse ::
  "GenerationService \<Rightarrow> ChatMessage list \<Rightarrow> GenerationOptions \<Rightarrow> World
     \<Rightarrow> (error + GenerationResult) \<times> World" where
  \<comment> \<open>\<open>GenerationService.generateResponse\<close>\<close>
  "gs_generateResponse svc messages options w =
     (if length (availableProviders svc) = 0 then (Inl (Error ''No AI providers available''), w)
      else
        (let modelString = orString (model options) ''auto'';
             defaultOptions =
               \<lparr>max_tokens = Some (orNat (max_tokens options) 1000),
                temperature = Some (orReal (temperature options) 0.7),
                top_p = Some (orReal (top_p options) 0.9),
                top_k = None, stop_sequences = None,
                model = Some modelString\<rparr>;
             (selectedProvider, selectedModel) =
               (if modelString = ''auto''
                then (firstProvider svc, getDefaultModelForProvider (firstProvider svc))
                else parseModelString svc modelString);
             (result, w') =
               (if selectedProvider = ''google''
                  then generateWithGoogle svc messages selectedModel defaultOptions w
                else if selectedProvider = ''openai''
                  then generateWithOpenAI svc messages selectedModel defaultOptions w
                else if selectedProvider = ''anthropic''
                  then generateWithAnthropic svc messages selectedModel defaultOptions w
                else if selectedProvider = ''cohere''
                  then generateWithCohere svc messages selectedModel defaultOptions w
                else (Inl (Error (''Unsupported provider: '' @ selectedProvider)), w))
         in case result of
              Inl e \<Rightarrow> (Inl (Error (''Generation failed: '' @ message e)), w')
            | Inr r \<Rightarrow> (Inr r, w')))"

definition getAvailableProviders :: "GenerationService \<Rightarrow> string list" where
  "getAvailableProviders svc = availableProviders svc"

definition testMessages :: "ChatMessage list" where
  "testMessages =
     [\<lparr>role = User, content = ''Hello, this is a health check. Please respond with ''
                     @ [CHR 0x22] @ ''OK'' @ [CHR 0x22] @ ''.'',
       timestamp = None, metadata = None\<rparr>]"

fun healthLoop ::
  "GenerationService \<Rightarrow> string list \<Rightarrow> (string \<rightharpoonup> bool) \<Rightarrow> World
     \<Rightarrow> (string \<rightharpoonup> bool) \<times> World" where
  "healthLoop svc [] healthStatus w = (healthStatus, w)"
| "healthLoop svc (provider # rest) healthStatus w =
     (case gs_generateResponse svc testMessages
             \<lparr>max_tokens = Some 10, temperature = Some 0, top_p = None, top_k = None,
              stop_sequences = None, model = Some (provider @ '':auto'')\<rparr> w of
        (Inl e, w') \<Rightarrow> healthLoop svc rest (healthStatus(provider \<mapsto> False)) w'
      | (Inr result, w') \<Rightarrow>
          healthLoop svc rest (healthStatus(provider \<mapsto> length (gen_content result) > 0)) w')"

definition healthCheck :: "GenerationService \<Rightarrow> World \<Rightarrow> (string \<rightharpoonup> bool) \<times> World" where
  "healthCheck svc w = healthLoop svc (availableProviders svc) Map.empty w"

section \<open>The chat route\<close>

text \<open>
  The four Korean texts of the route (the fallback answer and the three parts of the system
  prompt) are kept as their UTF-8 bytes; the code never looks inside them.
\<close>

definition fallbackContent :: string where
  "fallbackContent =
     [CHR 0xEC, CHR 0xA3, CHR 0x84, CHR 0xEC, CHR 0x86, CHR 0xA1, CHR 0xED, CHR 0x95, CHR 0xA9,
      CHR 0xEB, CHR 0x8B, CHR 0x88, CHR 0xEB, CHR 0x8B, CHR 0xA4, CHR 0x2E, CHR 0x20, CHR 0xED,
      CHR 0x98, CHR 0x84, CHR 0xEC, CHR 0x9E, CHR 0xAC, CHR 0x20, CHR 0x41, CHR 0x49, CHR 0x20,
      CHR 0xEC, CHR 0x84, CHR 0x9C, CHR 0xEB, CHR 0xB9, CHR 0x84, CHR 0xEC, CHR 0x8A, CHR 0xA4,
      CHR 0xEC, CHR 0x97, CHR 0x90, CHR 0x20, CHR 0xEB, CHR 0xAC, CHR 0xB8, CHR 0xEC, CHR 0xA0,
      CHR 0x9C, CHR 0xEA, CHR 0xB0, CHR 0x80, CHR 0x20, CHR 0xEC, CHR 0x9E, CHR 0x88, CHR 0xEC,
      CHR 0x96, CHR 0xB4, CHR 0x20, CHR 0xEB, CHR 0x8B, CHR 0xB5, CHR 0xEB, CHR 0xB3, CHR 0x80,
      CHR 0xEC, CHR 0x9D, CHR 0x84, CHR 0x20, CHR 0xEC, CHR 0x83, CHR 0x9D, CHR 0xEC, CHR 0x84,
      CHR 0xB1, CHR 0xED, CHR 0x95, CHR 0xA0, CHR 0x20, CHR 0xEC, CHR 0x88, CHR 0x98, CHR 0x20,
      CHR 0xEC, CHR 0x97, CHR 0x86, CHR 0xEC, CHR 0x8A, CHR 0xB5, CHR 0xEB, CHR 0x8B, CHR 0x88,
      CHR 0xEB, CHR 0x8B, CHR 0xA4, CHR 0x2E, CHR 0x20, CHR 0xEC, CHR 0x9E, CHR 0xA0, CHR 0xEC,
      CHR 0x8B, CHR 0x9C, CHR 0x20, CHR 0xED, CHR 0x9B, CHR 0x84, CHR 0x20, CHR 0xEB, CHR 0x8B,
      CHR 0xA4, CHR 0xEC, CHR 0x8B, CHR 0x9C, CHR 0x20, CHR 0xEC, CHR 0x8B, CHR 0x9C, CHR 0xEB,
      CHR 0x8F, CHR 0x84, CHR 0xED, CHR 0x95, CHR 0xB4, CHR 0xEC, CHR 0xA3, CHR 0xBC, CHR 0xEC,
      CHR 0x84, CHR 0xB8, CHR 0xEC, CHR 0x9A, CHR 0x94, CHR 0x2E]"

definition systemPromptHead :: string where
  "systemPromptHead =
     [CHR 0xEB, CHR 0x8B, CHR 0xB9, CHR 0xEC, CHR 0x8B, CHR 0xA0, CHR 0xEC, CHR 0x9D, CHR 0x80,
      CHR 0x20, CHR 0xEB, CHR 0x8F, CHR 0x84, CHR 0xEC, CHR 0x9B, CHR 0x80, CHR 0xEC, CHR 0x9D,
      CHR 0xB4, CHR 0x20, CHR 0xEB, CHR 0x90, CHR 0x98, CHR 0xEB, CHR 0x8A, CHR 0x94, CHR 0x20,
      CHR 0x41, CHR 0x49, CHR 0x20, CHR 0xEC, CHR 0x96, CHR 0xB4, CHR 0xEC, CHR 0x8B, CHR 0x9C,
      CHR 0xEC, CHR 0x8A, CHR 0xA4, CHR 0xED, CHR 0x84, CHR 0xB4, CHR 0xED, CHR 0x8A, CHR 0xB8,
      CHR 0xEC, CHR 0x9E, CHR 0x85, CHR 0xEB, CHR 0x8B, CHR 0x88, CHR 0xEB, CHR 0x8B, CHR 0xA4,
      CHR 0x2E, CHR 0x20, CHR 0xEC, CHR 0xA0, CHR 0x9C, CHR 0xEA, CHR 0xB3, CHR 0xB5, CHR 0xEB,
      CHR 0x90, CHR 0x9C, CHR 0x20, CHR 0xEB, CHR 0xAC, CHR 0xB8, CHR 0xEC, CHR 0x84, CHR 0x9C,
      CHR 0xEB, CHR 0xA5, CHR 0xBC, CHR 0x20, CHR 0xEA, CHR 0xB8, CHR 0xB0, CHR 0xEB, CHR 0xB0,
      CHR 0x98, CHR 0xEC, CHR 0x9C, CHR 0xBC, CHR 0xEB, CHR 0xA1, CHR 0x9C, CHR 0x20, CHR 0xEC,
      CHR 0x82, CHR 0xAC, CHR 0xEC, CHR 0x9A, CHR 0xA9, CHR 0xEC, CHR 0x9E, CHR 0x90, CHR 0xEC,
      CHR 0x9D, CHR 0x98, CHR 0x20, CHR 0xEC, CHR 0xA7, CHR 0x88, CHR 0xEB, CHR 0xAC, CHR 0xB8,
      CHR 0xEC, CHR 0x97, CHR 0x90, CHR 0x20, CHR 0xEC, CHR 0xA0, CHR 0x95, CHR 0xED, CHR 0x99,
      CHR 0x95, CHR 0xED, CHR 0x95, CHR 0x98, CHR 0xEA, CHR 0xB3, CHR 0xA0, CHR 0x20, CHR 0xEC,
      CHR 0x9C, CHR 0xA0, CHR 0xEC, CHR 0x9A, CHR 0xA9, CHR 0xED, CHR 0x95, CHR 0x9C, CHR 0x20,
      CHR 0xEB, CHR 0x8B, CHR 0xB5, CHR 0xEB, CHR 0xB3, CHR 0x80, CHR 0xEC, CHR 0x9D, CHR 0x84,
      CHR 0x20, CHR 0xEC, CHR 0xA0, CHR 0x9C, CHR 0xEA, CHR 0xB3, CHR 0xB5, CHR 0xED, CHR 0x95,
      CHR 0x98, CHR 0xEC, CHR 0x84, CHR 0xB8, CHR 0xEC, CHR 0x9A, CHR 0x94, CHR 0x2E, CHR 0x0A,
      CHR 0x0A, CHR 0xEB, CHR 0x8B, CHR 0xA4, CHR 0xEC, CHR 0x9D, CHR 0x8C, CHR 0xEC, CHR 0x9D,
      CHR 0x80, CHR 0x20, CHR 0xEA, CHR 0xB4, CHR 0x80, CHR 0xEB, CHR 0xA0, CHR 0xA8, CHR 0x20,
      CHR 0xEB, CHR 0xAC, CHR 0xB8, CHR 0xEC, CHR 0x84, CHR 0x9C, CHR 0x20, CHR 0xEB, CHR 0x82,
      CHR 0xB4, CHR 0xEC, CHR 0x9A, CHR 0xA9, CHR 0xEC, CHR 0x9E, CHR 0x85, CHR 0xEB, CHR 0x8B,
      CHR 0x88, CHR 0xEB, CHR 0x8B, CHR 0xA4, CHR 0x3A, CHR 0x0A]"

definition noDocumentsText :: string where
  "noDocumentsText =
     [CHR 0xEA, CHR 0xB4, CHR 0x80, CHR 0xEB, CHR 0xA0, CHR 0xA8, CHR 0x20, CHR 0xEB, CHR 0xAC,
      CHR 0xB8, CHR 0xEC, CHR 0x84, CHR 0x9C, CHR 0xEB, CHR 0xA5, CHR 0xBC, CHR 0x20, CHR 0xEC,
      CHR 0xB0, CHR 0xBE, CHR 0xEC, CHR 0x9D, CHR 0x84, CHR 0x20, CHR 0xEC, CHR 0x88, CHR 0x98,
      CHR 0x20, CHR 0xEC, CHR 0x97, CHR 0x86, CHR 0xEC, CHR 0x8A, CHR 0xB5, CHR 0xEB, CHR 0x8B,
      CHR 0x88, CHR 0xEB, CHR 0x8B, CHR 0xA4, CHR 0x2E]"

definition systemPromptTail :: string where
  "systemPromptTail =
     [CHR 0x0A, CHR 0x0A, CHR 0xEB, CHR 0x8B, CHR 0xB5, CHR 0xEB, CHR 0xB3, CHR 0x80, CHR 0x20,
      CHR 0xEC, CHR 0x8B, CHR 0x9C, CHR 0x20, CHR 0xEB, CHR 0x8B, CHR 0xA4, CHR 0xEC, CHR 0x9D,
      CHR 0x8C, CHR 0x20, CHR 0xEC, CHR 0x82, CHR 0xAC, CHR 0xED, CHR 0x95, CHR 0xAD, CHR 0xEC,
      CHR 0x9D, CHR 0x84, CHR 0x20, CHR 0xEC, CHR 0xA4, CHR 0x80, CHR 0xEC, CHR 0x88, CHR 0x98,
      CHR 0xED, CHR 0x95, CHR 0x98, CHR 0xEC, CHR 0x84, CHR 0xB8, CHR 0xEC, CHR 0x9A, CHR 0x94,
      CHR 0x3A, CHR 0x0A, CHR 0x31, CHR 0x2E, CHR 0x20, CHR 0xEC, CHR 0xA0, CHR 0x9C, CHR 0xEA,
      CHR 0xB3, CHR 0xB5, CHR 0xEB, CHR 0x90, CHR 0x9C, CHR 0x20, CHR 0xEB, CHR 0xAC, CHR 0xB8,
      CHR 0xEC, CHR 0x84, CHR 0x9C, CHR 0x20, CHR 0xEB, CHR 0x82, CHR 0xB4, CHR 0xEC, CHR 0x9A,
      CHR 0xA9, CHR 0xEC, CHR 0x9D, CHR 0x84, CHR 0x20, CHR 0xEA, CHR 0xB8, CHR 0xB0, CHR 0xEB,
      CHR 0xB0, CHR 0x98, CHR 0xEC, CHR 0x9C, CHR 0xBC, CHR 0xEB, CHR 0xA1, CHR 0x9C, CHR 0x20,
      CHR 0xEB, CHR 0x8B, CHR 0xB5, CHR 0xEB, CHR 0xB3, CHR 0x80, CHR 0xED, CHR 0x95, CHR 0x98,
      CHR 0xEC, CHR 0x84, CHR 0xB8, CHR 0xEC, CHR 0x9A, CHR 0x94, CHR 0x0A, CHR 0x32, CHR 0x2E,
      CHR 0x20, CHR 0xEB, CHR 0xAC, CHR 0xB8, CHR 0xEC, CHR 0x84, CHR 0x9C, CHR 0xEC, CHR 0x97,
      CHR 0x90, CHR 0x20, CHR 0xEC, CHR 0x97, CHR 0x86, CHR 0xEB, CHR 0x8A, CHR 0x94, CHR 0x20,
      CHR 0xEB, CHR 0x82, CHR 0xB4, CHR 0xEC, CHR 0x9A, CHR 0xA9, CHR 0xEC, CHR 0x9D, CHR 0x80,
      CHR 0x20, CHR 0xEC, CHR 0xB6, CHR 0x94, CHR 0xEC, CHR 0xB8, CHR 0xA1, CHR 0xED, CHR 0x95,
      CHR 0x98, CHR 0xEC, CHR 0xA7, CHR 0x80, CHR 0x20, CHR 0xEB, CHR 0xA7, CHR 0x90, CHR 0xEA,
      CHR 0xB3, CHR 0xA0, CHR 0x20, CHR 0xEC, CHR 0x86, CHR 0x94, CHR 0xEC, CHR 0xA7, CHR 0x81,
      CHR 0xED, CHR 0x9E, CHR 0x88, CHR 0x20, CHR 0xEB, CHR 0xAA, CHR 0xA8, CHR 0xEB, CHR 0xA5,
      CHR 0xB8, CHR 0xEB, CHR 0x8B, CHR 0xA4, CHR 0xEA, CHR 0xB3, CHR 0xA0, CHR 0x20, CHR 0xED,
      CHR 0x95, CHR 0x98, CHR 0xEC, CHR 0x84, CHR 0xB8, CHR 0xEC, CHR 0x9A, CHR 0x94, CHR 0x0A,
      CHR 0x33, CHR 0x2E, CHR 0x20, CHR 0xEA, CHR 0xB0, CHR 0x80, CHR 0xEB, CHR 0x8A, CHR 0xA5,
      CHR 0xED, CHR 0x95, CHR 0x9C, CHR 0x20, CHR 0xED, CHR 0x95, CHR 0x9C, CHR 0x20, CHR 0xEA,
      CHR 0xB5, CHR 0xAC, CHR 0xEC, CHR 0xB2, CHR 0xB4, CHR 0xEC, CHR 0xA0, CHR 0x81, CHR 0xEC,
      CHR 0x9D, CHR 0xB4, CHR 0xEA, CHR 0xB3, CHR 0xA0, CHR 0x20, CHR 0xEB, CHR 0x8F, CHR 0x84,
      CHR 0xEC, CHR 0x9B, CHR 0x80, CHR 0xEC, CHR 0x9D, CHR 0xB4, CHR 0x20, CHR 0xEB, CHR 0x90,
      CHR 0x98, CHR 0xEB, CHR 0x8A, CHR 0x94, CHR 0x20, CHR 0xEB, CHR 0x8B, CHR 0xB5, CHR 0xEB,
      CHR 0xB3, CHR 0x80, CHR 0xEC, CHR 0x9D, CHR 0x84, CHR 0x20, CHR 0xEC, CHR 0xA0, CHR 0x9C,
      CHR 0xEA, CHR 0xB3, CHR 0xB5, CHR 0xED, CHR 0x95, CHR 0x98, CHR 0xEC, CHR 0x84, CHR 0xB8,
      CHR 0xEC, CHR 0x9A, CHR 0x94, CHR 0x0A, CHR 0x34, CHR 0x2E, CHR 0x20, CHR 0xED, CHR 0x95,
      CHR 0x9C, CHR 0xEA, CHR 0xB5, CHR 0xAD, CHR 0xEC, CHR 0x96, CHR 0xB4, CHR 0xEB, CHR 0xA1,
      CHR 0x9C, CHR 0x20, CHR 0xEC, CHR 0x9E, CHR 0x90, CHR 0xEC, CHR 0x97, CHR 0xB0, CHR 0xEC,
      CHR 0x8A, CHR 0xA4, CHR 0xEB, CHR 0x9F, CHR 0xBD, CHR 0xEA, CHR 0xB2, CHR 0x8C, CHR 0x20,
      CHR 0xEB, CHR 0x8B, CHR 0xB5, CHR 0xEB, CHR 0xB3, CHR 0x80, CHR 0xED, CHR 0x95, CHR 0x98,
      CHR 0xEC, CHR 0x84, CHR 0xB8, CHR 0xEC, CHR 0x9A, CHR 0x94]"

record Source =
  src_content :: string
  src_source :: string
  src_page :: nat
  src_chunk_id :: string
  src_score :: real

record Context =
  conversation_history :: "ChatMessage list"
  relevant_documents :: string
  search_results :: "Source list"

record AiResponse =
  ai_content :: string
  ai_model :: string
  ai_tokens_used :: nat
  ai_provider :: string

record ConversationSession =
  session_id :: string
  created_at :: string
  last_activity :: string
  message_count :: nat
  history :: "ChatMessage list"

record ChatRequest =
  message :: string
  req_session_id :: "string option"
  req_max_tokens :: "nat option"
  req_temperature :: "real option"

record ChatResponse =
  answer :: string
  resp_session_id :: string
  sources :: "Source list"
  tokens_used :: nat
  model_used :: string

datatype Response =
    Success ChatResponse  \<comment> \<open>\<open>res.success(response)\<close>\<close>
  | Failure string string nat  \<comment> \<open>\<open>res.error(message, code, status)\<close>\<close>

record ChatEnv =
  vectorService :: VectorService
  generationService :: GenerationService

definition sliceLast :: "nat \<Rightarrow> 'a list \<Rightarrow> 'a list" where
  \<comment> \<open>\<open>xs.slice(-n)\<close> for \<open>n > 0\<close>: the last \<open>n\<close> elements, or all of a shorter list\<close>
  "sliceLast n xs = drop (length xs - n) xs"

fun joinWith :: "string \<Rightarrow> string list \<Rightarrow> string" where
  \<comment> \<open>\<open>xs.join(sep)\<close>\<close>
  "joinWith sep [] = []"
| "joinWith sep [x] = x"
| "joinWith sep (x # y # ys) = x @ sep @ joinWith sep (y # ys)"

definition toSource :: "SearchResult \<Rightarrow> Source" where
  "toSource result =
     \<lparr>src_content = sr_content result,
      src_source = orString (Some (sr_source result)) ''unknown'',
      src_page = orNat (sr_page result) 1,
      src_chunk_id = orString (Some (sr_chunk_id result)) (sr_id result),
      src_score = sr_score result\<rparr>"

definition chatSearchOptions :: SearchOptions where
  \<comment> \<open>\<open>{ limit: 5, threshold: 0.7 }\<close>\<close>
  "chatSearchOptions = \<lparr>opt_limit = Some 5, opt_threshold = Some 0.7, opt_filter = None\<rparr>"

definition performVectorSearch :: "VectorService \<Rightarrow> string \<Rightarrow> World \<Rightarrow> Source list \<times> World" where
  "performVectorSearch svc query w =
     (if \<not> isAvailable svc then ([], w)
      else
        (case search svc query chatSearchOptions w of
           (Inl e, w') \<Rightarrow> ([], w')
         | (Inr searchResults, w') \<Rightarrow> (map toSource searchResults, w')))"

definition prepareContext :: "ChatMessage list \<Rightarrow> Source list \<Rightarrow> Context" where
  "prepareContext hist searchResults =
     \<lparr>conversation_history = sliceLast 6 hist,
      relevant_documents = joinWith [CHR 0x0A, CHR 0x0A] (map src_content searchResults),
      search_results = searchResults\<rparr>"

definition systemPrompt :: "Context \<Rightarrow> string" where
  "systemPrompt context =
     systemPromptHead
     @ orString (Some (relevant_documents context)) noDocumentsText
     @ systemPromptTail"

definition buildMessages :: "string \<Rightarrow> Context \<Rightarrow> ChatMessage list" where
  \<comment> \<open>the \<open>messages\<close> array of the route's \<open>generateResponse\<close>\<close>
  "buildMessages query context =
     [\<lparr>role = System, content = systemPrompt context, timestamp = None, metadata = None\<rparr>]
     @ sliceLast 6 (conversation_history context)
     @ [\<lparr>role = User, content = query, timestamp = None, metadata = None\<rparr>]"

definition fallbackResponse :: AiResponse where
  "fallbackResponse =
     \<lparr>ai_content = fallbackContent, ai_model = ''fallback'', ai_tokens_used = 0,
      ai_provider = ''system''\<rparr>"

definition chatGenerationOptions :: "nat \<Rightarrow> real \<Rightarrow> GenerationOptions" where
  "chatGenerationOptions maxTokens temp =
     \<lparr>max_tokens = Some (orNat (Some maxTokens) 1000),
      temperature = Some (orReal (Some temp) 0.7),
      top_p = None, top_k = None, stop_sequences = None, model = Some ''auto''\<rparr>"

definition generateResponse ::
  "GenerationService \<Rightarrow> string \<Rightarrow> Context \<Rightarrow> nat \<Rightarrow> real \<Rightarrow> World \<Rightarrow> AiResponse \<times> World" where
  \<comment> \<open>the route's \<open>generateResponse\<close>; its \<open>catch\<close> turns every error into the fallback\<close>
  "generateResponse svc query context maxTokens temp w =
     (if length (getAvailableProviders svc) = 0 then (fallbackResponse, w)
      else
        (case gs_generateResponse svc (buildMessages query context)
                (chatGenerationOptions maxTokens temp) w of
           (Inl e, w') \<Rightarrow> (fallbackResponse, w')
         | (Inr generationResult, w') \<Rightarrow>
             (\<lparr>ai_content = gen_content generationResult,
               ai_model = gen_model generationResult,
               ai_tokens_used = gen_tokens_used generationResult,
               ai_provider = gen_provider generationResult\<rparr>, w')))"

definition userMessageOf :: "string \<Rightarrow> string \<Rightarrow> ChatMessage" where
  "userMessageOf text now = \<lparr>role = User, content = text, timestamp = Some now, metadata = None\<rparr>"

definition assistantMessageOf :: "AiResponse \<Rightarrow> nat \<Rightarrow> string \<Rightarrow> ChatMessage" where
  "assistantMessageOf aiResponse sourceCount now =
     \<lparr>role = Assistant, content = ai_content aiResponse, timestamp = Some now,
      metadata = Some \<lparr>meta_model = ai_model aiResponse,
                       meta_tokens_used = ai_tokens_used aiResponse,
                       meta_sources = sourceCount\<rparr>\<rparr>"

definition resolveSession ::
  "(string \<rightharpoonup> ConversationSession) \<Rightarrow> string \<Rightarrow> string \<Rightarrow> ConversationSession" where
  \<comment> \<open>\<open>sessions.get(sessionId)\<close>, or the new session the route creates\<close>
  "resolveSession sessions sessionId now =
     (case sessions sessionId of
        Some session \<Rightarrow> session
      | None \<Rightarrow> \<lparr>session_id = sessionId, created_at = now, last_activity = now,
                  message_count = 0, history = []\<rparr>)"

definition requestMaxTokens :: "ChatRequest \<Rightarrow> nat" where
  \<comment> \<open>the destructuring default \<open>max_tokens = 1000\<close>\<close>
  "requestMaxTokens req = (case req_max_tokens req of None \<Rightarrow> 1000 | Some n \<Rightarrow> n)"

definition requestTemperature :: "ChatRequest \<Rightarrow> real" where
  \<comment> \<open>the destructuring default \<open>temperature = 0.7\<close>\<close>
  "requestTemperature req = (case req_temperature req of None \<Rightarrow> 0.7 | Some t \<Rightarrow> t)"

definition sessionAfterUser ::
  "(string \<rightharpoonup> ConversationSession) \<Rightarrow> ChatRequest \<Rightarrow> string \<Rightarrow> string \<Rightarrow> ConversationSession" where
  \<comment> \<open>the session once the user message is pushed\<close>
  "sessionAfterUser sessions req uuid now =
     (let sessionId = orString (req_session_id req) uuid;
          session = resolveSession sessions sessionId now
      in session\<lparr>history := history session @ [userMessageOf (message req) now],
                  last_activity := now,
                  message_count := message_count session + 1\<rparr>)"

definition retrieveContext ::
  "ChatEnv \<Rightarrow> string \<Rightarrow> ChatMessage list \<Rightarrow> World \<Rightarrow> Context \<times> World" where
  \<comment> \<open>steps 1 and 2 of the pipeline: vector search, then \<open>prepareContext\<close>\<close>
  "retrieveContext env query hist w =
     (let (searchResults, w1) = performVectorSearch (vectorService env) query w
      in (prepareContext hist searchResults, w1))"

definition chatPost ::
  "ChatEnv \<Rightarrow> ChatRequest \<Rightarrow> string \<Rightarrow> string \<Rightarrow> (string \<rightharpoonup> ConversationSession) \<Rightarrow> World
     \<Rightarrow> Response \<times> (string \<rightharpoonup> ConversationSession) \<times> World" where
  \<comment> \<open>\<open>router.post('/')\<close>; \<open>uuid\<close> is the value of \<open>uuidv4()\<close>, \<open>now\<close> the clock.  Nothing
      inside the inner \<open>try\<close> can throw (both helpers catch everything), so its \<open>catch\<close>
      (status 503) and the outer one (status 500) have no branch here.\<close>
  "chatPost env req uuid now sessions w =
     (if message req = [] \<or> length (trim (message req)) = 0
        then (Failure ''Message is required'' ''EMPTY_MESSAGE'' 400, sessions, w)
      else if length (message req) > 4000
        then (Failure ''Message too long (max: 4000 characters)'' ''MESSAGE_TOO_LONG'' 400,
              sessions, w)
      else
        (let sessionId = orString (req_session_id req) uuid;
             session1 = sessionAfterUser sessions req uuid now;
             (context, w1) = retrieveContext env (message req) (history session1) w;
             searchResults = search_results context;
             (aiResponse, w2) =
               generateResponse (generationService env) (message req) context
                 (requestMaxTokens req) (requestTemperature req) w1;
             pushed = history session1 @ [assistantMessageOf aiResponse (length searchResults) now];
             session2 = session1\<lparr>history := (if length pushed > 10 then sliceLast 10 pushed
                                                else pushed),
                                 last_activity := now\<rparr>
         in (Success \<lparr>answer = ai_content aiResponse, resp_session_id = sessionId,
                      sources = searchResults, tokens_used = ai_tokens_used aiResponse,
                      model_used = ai_model aiResponse\<rparr>,
             sessions(sessionId \<mapsto> session2), w2)))"

fun chatRun ::
  "(ChatEnv \<times> ChatRequest \<times> string \<times> string) list \<Rightarrow> (string \<rightharpoonup> ConversationSession) \<Rightarrow> World
     \<Rightarrow> (string \<rightharpoonup> ConversationSession) \<times> World" where
  \<comment> \<open>a sequence of chat requests, each with the services' state, the uuid and the clock
      of its moment\<close>
  "chatRun [] sessions w = (sessions, w)"
| "chatRun ((env, req, uuid, now) # calls) sessions w =
     (case chatPost env req uuid now sessions w of
        (response, sessions', w') \<Rightarrow> chatRun calls sessions' w')"

definition passesValidation :: "ChatRequest \<Rightarrow> bool" where
  \<comment> \<open>neither of the two validation branches of the route is taken\<close>
  "passesValidation req \<longleftrightarrow>
     \<not> (message req = [] \<or> length (trim (message req)) = 0) \<and> \<not> length (message req) > 4000"

definition callsOn ::
  "string \<Rightarrow> (ChatEnv \<times> ChatRequest \<times> string \<times> string) list
     \<Rightarrow> (ChatEnv \<times> ChatRequest \<times> string \<times> string) list" where
  \<comment> \<open>the requests of a run that pass validation and address session \<open>sid\<close>\<close>
  "callsOn sid calls =
     filter (\<lambda>(env, req, uuid, now).
               passesValidation req \<and> orString (req_session_id req) uuid = sid) calls"

fun turns ::
  "(ChatEnv \<times> ChatRequest \<times> string \<times> string) list \<Rightarrow> ChatMessage list \<Rightarrow> ChatMessage list" where
  \<comment> \<open>user message, assistant message, user message, ... in the order of the requests\<close>
  "turns ((env, req, uuid, now) # calls) (a # as) =
     userMessageOf (message req) now # a # turns calls as"
| "turns calls as = []"

definition historyOf :: "(string \<rightharpoonup> ConversationSession) \<Rightarrow> string \<Rightarrow> ChatMessage list" where
  \<comment> \<open>the stored history of a session, empty when there is none\<close>
  "historyOf sessions sid = (case sessions sid of None \<Rightarrow> [] | Some s \<Rightarrow> history s)"

section \<open>Example services and requests\<close>

definition world0 :: World where
  "world0 = \<lparr>embedLog = [], batchCalls = [], indexLog = [], genLog = []\<rparr>"

definition embDown :: EmbeddingService where
  "embDown = \<lparr>emb_initialized = True, embedContent = (\<lambda>t. Inl (Error ''down''))\<rparr>"

definition embUp :: EmbeddingService where
  "embUp = \<lparr>emb_initialized = True, embedContent = (\<lambda>t. Inr [1, 0])\<rparr>"

definition vsUp :: VectorService where
  "vsUp = \<lparr>vs_initialized = True, embeddingService = embUp,
     qdrantUpsert = (\<lambda>p. Inr ()),
     qdrantSearch = (\<lambda>p. Inr []),
     qdrantDelete = (\<lambda>p. Inr 7)\<rparr>"

definition vsIndexDown :: VectorService where
  "vsIndexDown = \<lparr>vs_initialized = True, embeddingService = embUp,
     qdrantUpsert = (\<lambda>p. Inl (Error ''index down'')),
     qdrantSearch = (\<lambda>p. Inl (Error ''index down'')),
     qdrantDelete = (\<lambda>p. Inl (Error ''index down''))\<rparr>"

definition vsEmbedDown :: VectorService where
  "vsEmbedDown = vsUp\<lparr>embeddingService := embDown\<rparr>"

definition chunkA :: DocumentChunk where
  "chunkA = \<lparr>chunk_id = ''doc_x_chunk_000'', chunk_content = ''Project budget'',
     chunk_metadata = [(''source'', ''a.txt'')]\<rparr>"

definition manyChunks :: "DocumentChunk list" where
  \<comment> \<open>one chunk more than a batch holds\<close>
  "manyChunks = replicate 101 chunkA"

definition gapText :: string where
  \<comment> \<open>seven spaces, \<open>x\<close>, three tabs\<close>
  "gapText = ''       x'' @ [CHR 0x09, CHR 0x09, CHR 0x09]"

definition clientOk :: Client where
  "clientOk = (\<lambda>mdl messages options.
     Inr \<lparr>raw_has_choice = True, raw_text = ''OK'', raw_tokens = 3, raw_finish = ''stop''\<rparr>)"

definition clientDown :: Client where
  "clientDown = (\<lambda>mdl messages options. Inl (Error ''unreachable''))"

definition genNone :: GenerationService where
  "genNone = initialize None None None None"

definition genGoogle :: GenerationService where
  "genGoogle = initialize (Some clientOk) None None None"

definition genGoogleOpenAI :: GenerationService where
  \<comment> \<open>Google answers, OpenAI is configured but unreachable\<close>
  "genGoogleOpenAI = initialize (Some clientOk) (Some clientDown) None None"

definition hello :: ChatRequest where
  "hello = \<lparr>message = ''hello'', req_session_id = Some ''s1'', req_max_tokens = None,
     req_temperature = None\<rparr>"

definition msgReq :: "string \<Rightarrow> ChatRequest" where
  "msgReq text = \<lparr>message = text, req_session_id = Some ''s1'', req_max_tokens = None,
     req_temperature = None\<rparr>"

definition envNoProviders :: ChatEnv where
  "envNoProviders = \<lparr>vectorService = vsUp, generationService = genNone\<rparr>"

definition envGoogle :: ChatEnv where
  "envGoogle = \<lparr>vectorService = vsUp, generationService = genGoogle\<rparr>"

definition sixCalls :: "(ChatEnv \<times> ChatRequest \<times> string \<times> string) list" where
  \<comment> \<open>six turns on session \<open>s1\<close>: twelve messages are appended\<close>
  "sixCalls = map (\<lambda>text. (envGoogle, msgReq text, ''u1'', ''t1''))
                [''m1'', ''m2'', ''m3'', ''m4'', ''m5'', ''m6'']"

section \<open>Properties of the chunker\<close>

lemma lastIndexOf_range: "- 1 \<le> lastIndexOf t c n \<and> lastIndexOf t c n \<le> int n"
  by (induction n) auto

lemma lastIndexOf_hit:
  "0 \<le> lastIndexOf t c n \<Longrightarrow> nat (lastIndexOf t c n) < length t \<and> t ! nat (lastIndexOf t c n) = c"
  by (induction n) (auto split: if_splits simp: nat_add_distrib)

lemma lastIndexOf_greatest:
  "j \<le> n \<Longrightarrow> j < length t \<Longrightarrow> t ! j = c \<Longrightarrow> int j \<le> lastIndexOf t c n"
proof (induction n)
  case 0
  then show ?case by simp
next
  case (Suc n)
  show ?case
  proof (cases "j = Suc n")
    case True
    with Suc.prems show ?thesis by simp
  next
    case False
    with Suc.prems have "j \<le> n" by simp
    from Suc.IH [OF this Suc.prems(2,3)] \<open>j \<le> n\<close> show ?thesis by simp
  qed
qed

lemma bestCutPoint_range: "- 1 \<le> bestCutPoint t n \<and> bestCutPoint t n \<le> int n"
  using lastIndexOf_range [of t "CHR '' ''" n] lastIndexOf_range [of t "CHR 0x0A" n]
    lastIndexOf_range [of t "CHR ''.''" n]
  by (auto simp: bestCutPoint_def Let_def max_def)

lemma bestCutPoint_hit:
  assumes "0 \<le> bestCutPoint t n"
  shows "nat (bestCutPoint t n) < length t \<and> isBoundary (t ! nat (bestCutPoint t n))"
proof -
  let ?s = "lastIndexOf t CHR '' '' n" and ?l = "lastIndexOf t CHR 0x0A n"
    and ?p = "lastIndexOf t CHR ''.'' n"
  have "bestCutPoint t n = ?s \<or> bestCutPoint t n = ?l \<or> bestCutPoint t n = ?p"
    by (auto simp: bestCutPoint_def Let_def max_def)
  then show ?thesis
    using assms lastIndexOf_hit [of t "CHR '' ''" n] lastIndexOf_hit [of t "CHR 0x0A" n]
      lastIndexOf_hit [of t "CHR ''.''" n]
    by (auto simp: isBoundary_def)
qed

lemma bestCutPoint_greatest:
  assumes "j \<le> n" "j < length t" "isBoundary (t ! j)"
  shows "int j \<le> bestCutPoint t n"
  using assms lastIndexOf_greatest [of j n t "CHR '' ''"] lastIndexOf_greatest [of j n t "CHR 0x0A"]
    lastIndexOf_greatest [of j n t "CHR ''.''"]
  by (auto simp: isBoundary_def bestCutPoint_def Let_def)

lemma cutEnd_gt_start:
  assumes "start < length text" "0 < chunkSize"
  shows "start < cutEnd text chunkSize start"
  using assms by (auto simp: cutEnd_def rawEnd_def Let_def)

lemma cutEnd_le_length: "cutEnd t chunkSize start \<le> length t"
  using bestCutPoint_hit [of t "rawEnd t chunkSize start"]
    bestCutPoint_range [of t "rawEnd t chunkSize start"]
  by (auto simp: cutEnd_def Let_def rawEnd_def)

lemma nextStart_ge_cutEnd: "cutEnd text chunkSize start \<le> nextStart text chunkSize overlap start"
  by (simp add: nextStart_def)

lemma splitLoop_returns:
  assumes "0 < chunkSize"
  shows "\<exists>r. splitLoop text chunkSize overlap start chunks = Some r"
proof (induction "length text - start" arbitrary: start chunks rule: less_induct)
  case less
  show ?case
  proof (cases "start < length text")
    case True
    let ?s = "nextStart text chunkSize overlap start"
    have "start < ?s"
      using cutEnd_gt_start [OF True assms] nextStart_ge_cutEnd [of "text" chunkSize start overlap]
      by simp
    with True have "length text - ?s < length text - start" by simp
    from less [OF this] show ?thesis
      using True by (subst splitLoop.simps) simp
  next
    case False
    then show ?thesis by (subst splitLoop.simps) simp
  qed
qed


lemma pushChunk_nonempty:
  "\<forall>c \<in> set chunks. c \<noteq> [] \<Longrightarrow> \<forall>c \<in> set (pushChunk chunks chunk). c \<noteq> []"
  by (auto simp: pushChunk_def)

lemma splitLoop_chunks:
  assumes "0 < chunkSize"
  shows "splitLoop text chunkSize overlap start chunks = Some r \<Longrightarrow>
         \<forall>c \<in> set chunks. c \<noteq> [] \<Longrightarrow>
         (\<forall>c \<in> set r. c \<noteq> []) \<and> (\<exists>ys. r = chunks @ ys)"
proof (induction "length text - start" arbitrary: start chunks rule: less_induct)
  case less
  show ?case
  proof (cases "start < length text")
    case True
    let ?s = "nextStart text chunkSize overlap start"
    let ?c = "pushChunk chunks (trim (slice text start (cutEnd text chunkSize start)))"
    have "start < ?s"
      using cutEnd_gt_start [OF True assms] nextStart_ge_cutEnd [of "text" chunkSize start overlap]
      by simp
    with True have m: "length text - ?s < length text - start" by simp
    have run: "splitLoop text chunkSize overlap ?s ?c = Some r"
      using less.prems(1) True by (subst (asm) splitLoop.simps) simp
    have ne: "\<forall>c \<in> set ?c. c \<noteq> []"
      using less.prems(2) by (rule pushChunk_nonempty)
    from less.hyps [OF m run ne] show ?thesis
      by (auto simp: pushChunk_def split: if_splits)
  next
    case False
    with less.prems show ?thesis by (subst (asm) splitLoop.simps) simp
  qed
qed

lemma in_set_dropWhile: "c \<in> set xs \<Longrightarrow> \<not> P c \<Longrightarrow> c \<in> set (dropWhile P xs)"
  by (induction xs) auto

lemma trim_visible:
  assumes "c \<in> set s" "\<not> isWhitespace c"
  shows "trim s \<noteq> []"
proof -
  have "c \<in> set (rev (dropWhile isWhitespace s))"
    using in_set_dropWhile [of c s isWhitespace] assms by simp
  with assms(2) have "dropWhile isWhitespace (rev (dropWhile isWhitespace s)) \<noteq> []"
    by (auto simp: dropWhile_eq_Nil_conv)
  then show ?thesis by (simp add: trim_def)
qed

lemma first_window_covers:
  assumes "i < length t" "2 * i \<le> chunkSize" "0 < chunkSize"
  shows "i < cutEnd t chunkSize 0"
  using assms by (auto simp: cutEnd_def rawEnd_def Let_def)

text \<open>
  What the chunker does guarantee: for every non-empty text and \<open>overlap < chunkSize\<close> it
  returns, every chunk is non-empty, a text no longer than \<open>chunkSize\<close> comes back as the
  single chunk, and there is at least one chunk when a visible character stands in the
  first half of the first window.
\<close>

lemma chunker_visible_start:
  assumes "text \<noteq> []" and "overlap < chunkSize"
  shows "\<exists>r. splitTextIntoChunks text chunkSize overlap = Some r
           \<and> (\<forall>c \<in> set r. c \<noteq> [])
           \<and> (length text \<le> chunkSize \<longrightarrow> r = [text])
           \<and> ((\<exists>i < length text. 2 * i \<le> chunkSize \<and> \<not> isWhitespace (text ! i)) \<longrightarrow> r \<noteq> [])"
proof (cases "length text \<le> chunkSize")
  case True
  with assms(1) show ?thesis by (simp add: splitTextIntoChunks_def)
next
  case False
  from assms(2) have pos: "0 < chunkSize" by simp
  obtain r where r: "splitLoop text chunkSize overlap 0 [] = Some r"
    using splitLoop_returns [OF pos] by blast
  have ne: "\<forall>c \<in> set r. c \<noteq> []"
    using splitLoop_chunks [OF pos r] by simp
  have "r \<noteq> []" if v: "\<exists>i < length text. 2 * i \<le> chunkSize \<and> \<not> isWhitespace (text ! i)"
  proof -
    from v obtain i where i: "i < length text" "2 * i \<le> chunkSize" "\<not> isWhitespace (text ! i)"
      by blast
    let ?s = "slice text 0 (cutEnd text chunkSize 0)"
    let ?c = "trim ?s"
    have "i < cutEnd text chunkSize 0" using first_window_covers [OF i(1,2) pos] .
    with i(1) have "text ! i \<in> set ?s"
      by (auto simp: slice_def in_set_conv_nth intro!: exI [of _ i])
    from trim_visible [OF this i(3)] have c: "?c \<noteq> []" .
    have "splitLoop text chunkSize overlap (nextStart text chunkSize overlap 0) [?c] = Some r"
      using r assms(1) c by (subst (asm) splitLoop.simps) (simp add: pushChunk_def)
    from splitLoop_chunks [OF pos this] c show ?thesis by auto
  qed
  with r ne False show ?thesis by (simp add: splitTextIntoChunks_def)
qed

text \<open>
  C2 fails on the code.  The next start \<open>max (start + chunkSize - overlap) end\<close> can lie
  beyond an adjusted cut, and the characters between the cut and the next start then
  belong to no chunk.  The text of seven spaces, \<open>x\<close> and three tabs (trimmed: \<open>x\<close>) with
  \<open>chunkSize = 10\<close> and \<open>overlap = 2\<close> is cut after the space at index 6; the first chunk
  trims to nothing, the next window starts at 8, behind the \<open>x\<close> at index 7, and holds
  tabs only: the result is the empty list.  In the same way one of the thirteen \<open>b\<close> of
  the second text is in no chunk.
\<close>

theorem chunker_drops_visible_text:
  "length gapText = 11 \<and> (2::nat) < 10 \<and> trim gapText = ''x'' \<and> gapText ! 7 = CHR ''x''
   \<and> cutEnd gapText 10 0 = 7 \<and> nextStart gapText 10 2 0 = 8
   \<and> splitTextIntoChunks gapText 10 2 = Some []
   \<and> splitTextIntoChunks ''aaaaaa bbbbbbbbbbbbb'' 10 2
        = Some [''aaaaaa'', ''bbbbbbbbbb'', ''bb'']"
  by code_simp

text \<open>
  C7.  For every non-empty text and \<open>0 \<le> overlap < chunkSize\<close>, each iteration of the loop
  (entered with \<open>start < text.length\<close>) strictly increases \<open>start\<close>, the next start being
  \<open>max (start + chunkSize - overlap) end\<close>, and \<open>splitTextIntoChunks\<close> returns.
\<close>

theorem chunk_loop_progress:
  assumes "text \<noteq> []" and "overlap < chunkSize"
  shows "(\<forall>start < length text.
            start < nextStart text chunkSize overlap start
            \<and> nextStart text chunkSize overlap start
                = max (start + chunkSize - overlap) (cutEnd text chunkSize start))
         \<and> (\<exists>r. splitTextIntoChunks text chunkSize overlap = Some r)"
proof -
  from assms(2) have pos: "0 < chunkSize" by simp
  have "start < nextStart text chunkSize overlap start" if "start < length text" for start
    using cutEnd_gt_start [OF that pos] nextStart_ge_cutEnd [of "text" chunkSize start overlap]
    by simp
  moreover have "nextStart text chunkSize overlap start
                = max (start + chunkSize - overlap) (cutEnd text chunkSize start)" for start
    unfolding nextStart_def using assms(2) by arith
  moreover have "\<exists>r. splitTextIntoChunks text chunkSize overlap = Some r"
    using splitLoop_returns [OF pos] by (simp add: splitTextIntoChunks_def)
  ultimately show ?thesis by blast
qed

theorem chunk_loop_progress_witness:
  "''aaaa bbbb cccc dddd'' \<noteq> [] \<and> (3::nat) < 10
   \<and> 0 < nextStart ''aaaa bbbb cccc dddd'' 10 3 0
   \<and> nextStart ''aaaa bbbb cccc dddd'' 10 3 0
        = max (0 + 10 - 3) (cutEnd ''aaaa bbbb cccc dddd'' 10 0)
   \<and> (\<exists>r. splitTextIntoChunks ''aaaa bbbb cccc dddd'' 10 3 = Some r)"
proof -
  have h1: "''aaaa bbbb cccc dddd'' \<noteq> []" by simp
  have h2: "(3::nat) < 10" by simp
  have h3: "0 < length ''aaaa bbbb cccc dddd''" by simp
  show ?thesis using h1 h2 h3 chunk_loop_progress [OF h1 h2] by blast
qed

text \<open>
  C3 (amended).  For a window whose raw end \<open>min (start + chunkSize) (length text)\<close> is not
  the end of the text: if a space, newline or period stands at an index \<open>j\<close> with
  \<open>j \<le> end\<close> (the position \<open>end\<close> itself included) and \<open>j > start + chunkSize / 2\<close>, the cut
  is put right after the last such character at or before \<open>end\<close>, and the slice keeps more
  than half of \<open>chunkSize\<close>; otherwise the raw end is kept.  The example
  \<open>split("aaaa bbbb cccc dddd", 10, 3)\<close> yields the two chunks \<open>aaaa bbbb\<close> and \<open>cccc dddd\<close>.
\<close>

theorem cut_point_adjustment:
  assumes "rawEnd text chunkSize start < length text"
  shows "(if \<exists>j \<le> rawEnd text chunkSize start.
              isBoundary (text ! j) \<and> 2 * int start + int chunkSize < 2 * int j
          then \<exists>b \<le> rawEnd text chunkSize start.
                 isBoundary (text ! b)
                 \<and> (\<forall>j. b < j \<and> j \<le> rawEnd text chunkSize start \<longrightarrow> \<not> isBoundary (text ! j))
                 \<and> cutEnd text chunkSize start = b + 1
                 \<and> chunkSize < 2 * (cutEnd text chunkSize start - start)
          else cutEnd text chunkSize start = rawEnd text chunkSize start)
         \<and> splitTextIntoChunks ''aaaa bbbb cccc dddd'' 10 3 = Some [''aaaa bbbb'', ''cccc dddd'']"
proof -
  let ?n = "rawEnd text chunkSize start"
  let ?b = "bestCutPoint text ?n"
  let ?acc = "\<exists>j \<le> ?n. isBoundary (text ! j) \<and> 2 * int start + int chunkSize < 2 * int j"
  have ex: "splitTextIntoChunks ''aaaa bbbb cccc dddd'' 10 3 = Some [''aaaa bbbb'', ''cccc dddd'']"
    by code_simp
  have above: "int j \<le> ?b" if "j \<le> ?n" "isBoundary (text ! j)" for j
    using that assms bestCutPoint_greatest [of j ?n "text"] by simp
  show ?thesis
  proof (cases "2 * int start + int chunkSize < 2 * ?b")
    case True
    then have b0: "0 \<le> ?b" by simp
    define b where "b = nat ?b"
    from b0 have bint: "int b = ?b" by (simp add: b_def)
    have bn: "b \<le> ?n" using bestCutPoint_range [of "text" ?n] bint by linarith
    have bb: "isBoundary (text ! b)" using bestCutPoint_hit [OF b0] by (simp add: b_def)
    have last: "\<not> isBoundary (text ! j)" if "b < j \<and> j \<le> ?n" for j
      using above [of j] that bint by auto
    have ce: "cutEnd text chunkSize start = b + 1"
      using True assms bint by (simp add: cutEnd_def Let_def nat_add_distrib b_def)
    have half: "chunkSize < 2 * (cutEnd text chunkSize start - start)"
      using True bint ce by linarith
    have "?acc" using bn bb True bint by auto
    moreover have "\<exists>b \<le> ?n. isBoundary (text ! b)
                 \<and> (\<forall>j. b < j \<and> j \<le> ?n \<longrightarrow> \<not> isBoundary (text ! j))
                 \<and> cutEnd text chunkSize start = b + 1
                 \<and> chunkSize < 2 * (cutEnd text chunkSize start - start)"
      using bn bb last ce half by blast
    ultimately show ?thesis using ex by simp
  next
    case False
    have "\<not> ?acc"
    proof
      assume ?acc
      then obtain j where "j \<le> ?n" "isBoundary (text ! j)" "2 * int start + int chunkSize < 2 * int j"
        by blast
      with above [of j] False show False by linarith
    qed
    moreover have "cutEnd text chunkSize start = ?n"
      using False by (simp add: cutEnd_def Let_def)
    ultimately show ?thesis using ex by auto
  qed
qed

theorem cut_point_adjustment_witness:
  "rawEnd ''aaaa bbbb cccc dddd'' 10 0 < length ''aaaa bbbb cccc dddd''
   \<and> (\<exists>b. b \<le> rawEnd ''aaaa bbbb cccc dddd'' 10 0
          \<and> isBoundary (''aaaa bbbb cccc dddd'' ! b)
          \<and> cutEnd ''aaaa bbbb cccc dddd'' 10 0 = b + 1
          \<and> 10 < 2 * (cutEnd ''aaaa bbbb cccc dddd'' 10 0 - 0))
   \<and> splitTextIntoChunks ''aaaa bbbb cccc dddd'' 10 3 = Some [''aaaa bbbb'', ''cccc dddd'']"
proof -
  have h: "rawEnd ''aaaa bbbb cccc dddd'' 10 0 < length ''aaaa bbbb cccc dddd''"
    by code_simp
  have "9 \<le> rawEnd ''aaaa bbbb cccc dddd'' 10 0 \<and> isBoundary (''aaaa bbbb cccc dddd'' ! 9)
          \<and> 2 * int 0 + int 10 < 2 * int 9"
    by code_simp
  then have c: "\<exists>j \<le> rawEnd ''aaaa bbbb cccc dddd'' 10 0.
              isBoundary (''aaaa bbbb cccc dddd'' ! j) \<and> 2 * int 0 + int 10 < 2 * int j"
    by blast
  show ?thesis using h cut_point_adjustment [OF h] c by (simp only: if_True) blast
qed

text \<open>
  C3 as stated fails: the scan starts at index \<open>end\<close>, not before it, so with a period at
  index 10 the cut of the first window moves forward from 10 to 11 and the chunk has 11
  characters, one more than \<open>chunkSize\<close>.
\<close>

theorem cut_point_forward_counterexample:
  "rawEnd ''aaaaaaaaaa.bbbb'' 10 0 = 10
   \<and> rawEnd ''aaaaaaaaaa.bbbb'' 10 0 < length ''aaaaaaaaaa.bbbb''
   \<and> cutEnd ''aaaaaaaaaa.bbbb'' 10 0 = 11
   \<and> splitTextIntoChunks ''aaaaaaaaaa.bbbb'' 10 0 = Some [''aaaaaaaaaa.'', ''bbbb'']
   \<and> length ''aaaaaaaaaa.'' > (10::nat)"
  by code_simp

section \<open>Properties of the embedding and vector gateways\<close>

lemma sliceBatches_sizes:
  "b \<in> set (sliceBatches n xs i) \<Longrightarrow> 0 < length b \<and> length b \<le> n"
proof (induction n xs i rule: sliceBatches.induct)
  case (1 batchSize xs i)
  then show ?case
    by (subst (asm) (2) sliceBatches.simps) (auto split: if_splits)
qed

lemma sliceBatches_step:
  "i < length xs \<Longrightarrow> 0 < n \<Longrightarrow>
   sliceBatches n xs i = take n (drop i xs) # sliceBatches n xs (i + n)"
  by (subst sliceBatches.simps) simp

lemma sliceBatches_done: "\<not> (i < length xs \<and> 0 < n) \<Longrightarrow> sliceBatches n xs i = []"
  by (subst sliceBatches.simps) simp

lemma sliceBatches_concat:
  "0 < n \<Longrightarrow> concat (sliceBatches n xs i) = drop i xs"
proof (induction n xs i rule: sliceBatches.induct)
  case (1 batchSize xs i)
  show ?case
  proof (cases "i < length xs")
    case True
    with 1 have ih: "concat (sliceBatches batchSize xs (i + batchSize)) = drop (i + batchSize) xs"
      by simp
    have "take batchSize (drop i xs) @ drop batchSize (drop i xs) = drop i xs"
      by (rule append_take_drop_id)
    then have "take batchSize (drop i xs) @ drop (i + batchSize) xs = drop i xs"
      by (simp add: add.commute)
    with ih show ?thesis using True 1(2) by (simp add: sliceBatches_step)
  next
    case False
    then show ?thesis by (simp add: sliceBatches_done)
  qed
qed

lemma createEmbedding_logs:
  "createEmbedding svc t w = (r, w') \<Longrightarrow>
   indexLog w' = indexLog w \<and> batchCalls w' = batchCalls w"
  by (auto simp: createEmbedding_def Let_def split: if_splits sum.splits)

lemma embedEach_logs:
  "embedEach svc ts w = (rs, w') \<Longrightarrow>
   indexLog w' = indexLog w \<and> batchCalls w' = batchCalls w"
proof (induction ts arbitrary: w rs w')
  case Nil
  then show ?case by simp
next
  case (Cons t ts)
  obtain r w1 where c: "createEmbedding svc t w = (r, w1)" by (cases "createEmbedding svc t w")
  obtain rs' w2 where e: "embedEach svc ts w1 = (rs', w2)" by (cases "embedEach svc ts w1")
  from Cons.prems c e have "w' = w2" by simp
  with Cons.IH [OF e] createEmbedding_logs [OF c] show ?case by simp
qed

lemma embedBatches_logs:
  "embedBatches svc bs embs tot w = (r, w') \<Longrightarrow>
   indexLog w' = indexLog w \<and> batchCalls w' = batchCalls w"
proof (induction bs arbitrary: embs tot w)
  case Nil
  then show ?case by auto
next
  case (Cons b bs)
  obtain ps w1 where e: "embedEach svc b w = (ps, w1)" by (cases "embedEach svc b w")
  note l1 = embedEach_logs [OF e]
  let ?early = "map snd (filter (\<lambda>(text, promise). rejectsAtOnce svc text) (zip b ps))"
  show ?case
  proof (cases "promiseAll ?early ps")
    case (Inl err)
    with Cons.prems e l1 show ?thesis by auto
  next
    case (Inr xs)
    with Cons.prems e have "embedBatches svc bs (embs @ xs)
        (tot + sum_list (map emb_tokens_used xs)) w1 = (r, w')" by simp
    from Cons.IH [OF this] l1 show ?thesis by simp
  qed
qed

lemma createEmbeddingBatch_logs:
  assumes "createEmbeddingBatch svc texts w = (r, w')"
  shows "indexLog w' = indexLog w \<and> batchCalls w' = batchCalls w"
proof (cases "length texts = 0 \<or> length texts > 100")
  case True
  with assms show ?thesis by (auto simp: createEmbeddingBatch_def split: if_splits)
next
  case False
  obtain r0 w0 where e: "embedBatches svc (sliceBatches 5 texts 0) [] 0 w = (r0, w0)"
    by (cases "embedBatches svc (sliceBatches 5 texts 0) [] 0 w")
  with assms False have "w' = w0"
    by (auto simp: createEmbeddingBatch_def split: sum.splits)
  with embedBatches_logs [OF e] show ?thesis by simp
qed

lemma createEmbeddingBatch_within_cap:
  assumes "0 < length texts" and "length texts \<le> 100"
  shows "fst (createEmbeddingBatch svc texts w)
           \<noteq> Inl (Error ''Texts array is required for batch embedding'')
         \<and> fst (createEmbeddingBatch svc texts w)
           \<noteq> Inl (Error ''Too many texts for batch embedding (max: 100)'')"
proof -
  obtain r0 w0 where e: "embedBatches svc (sliceBatches 5 texts 0) [] 0 w = (r0, w0)"
    by (cases "embedBatches svc (sliceBatches 5 texts 0) [] 0 w")
  show ?thesis
  proof (cases r0)
    case (Inl err)
    with e assms have "fst (createEmbeddingBatch svc texts w)
        = Inl (Error (''Batch embedding failed: '' @ error.message err))"
      by (simp add: createEmbeddingBatch_def)
    then show ?thesis by simp
  next
    case (Inr b)
    with e assms have "fst (createEmbeddingBatch svc texts w) = Inr b"
      by (simp add: createEmbeddingBatch_def)
    then show ?thesis by simp
  qed
qed

lemma addBatches_step:
  assumes "createEmbeddingBatch (embeddingService svc) (map chunk_content b)
             (w\<lparr>batchCalls := batchCalls w @ [map chunk_content b]\<rparr>) = (er, w1)"
  shows "addBatches svc (b # bs) k w =
     (case er of
        Inl e \<Rightarrow> (Inl e, w1)
      | Inr emb \<Rightarrow>
          (case qdrantUpsert svc (makePoints b emb) of
             Inl e \<Rightarrow> (Inl e, w1\<lparr>indexLog := indexLog w1 @ [Upsert (makePoints b emb)]\<rparr>)
           | Inr u \<Rightarrow> addBatches svc bs (k + length b)
                        (w1\<lparr>indexLog := indexLog w1 @ [Upsert (makePoints b emb)]\<rparr>)))"
  using assms by (simp add: Let_def split: sum.splits)

lemma addBatches_ok:
  "addBatches svc bs k w = (Inr n, w') \<Longrightarrow>
   n = k + length (concat bs)
   \<and> (\<exists>new. indexLog w' = indexLog w @ new \<and> length new = length bs
          \<and> (\<forall>r \<in> set new. \<exists>ps. r = Upsert ps \<and> qdrantUpsert svc ps = Inr ()))"
proof (induction bs arbitrary: k w)
  case Nil
  then show ?case by simp
next
  case (Cons b bs)
  let ?w0 = "w\<lparr>batchCalls := batchCalls w @ [map chunk_content b]\<rparr>"
  obtain er w1 where
    c: "createEmbeddingBatch (embeddingService svc) (map chunk_content b) ?w0 = (er, w1)"
    by (cases "createEmbeddingBatch (embeddingService svc) (map chunk_content b) ?w0")
  from createEmbeddingBatch_logs [OF c] have l1: "indexLog w1 = indexLog w" by simp
  note step = addBatches_step [OF c, of bs k]
  from Cons.prems step obtain emb where er: "er = Inr emb" by (cases er) auto
  let ?ps = "makePoints b emb"
  let ?w2 = "w1\<lparr>indexLog := indexLog w1 @ [Upsert ?ps]\<rparr>"
  from Cons.prems step er have up: "qdrantUpsert svc ?ps = Inr ()"
    by (cases "qdrantUpsert svc ?ps") auto
  with Cons.prems step er have rest: "addBatches svc bs (k + length b) ?w2 = (Inr n, w')"
    by simp
  from Cons.IH [OF rest] obtain new where
    n: "n = k + length b + length (concat bs)" and
    new: "indexLog w' = indexLog ?w2 @ new" "length new = length bs"
      "\<forall>r \<in> set new. \<exists>ps. r = Upsert ps \<and> qdrantUpsert svc ps = Inr ()"
    by auto
  have "indexLog w' = indexLog w @ (Upsert ?ps # new)" using new(1) l1 by simp
  moreover have "length (Upsert ?ps # new) = length (b # bs)" using new(2) by simp
  moreover have "\<forall>r \<in> set (Upsert ?ps # new). \<exists>ps. r = Upsert ps \<and> qdrantUpsert svc ps = Inr ()"
    using new(3) up by simp
  ultimately show ?case using n by (intro conjI exI [of _ "Upsert ?ps # new"]) simp_all
qed

lemma addBatches_calls:
  "addBatches svc bs k w = (r, w') \<Longrightarrow>
   \<exists>j \<le> length bs.
     batchCalls w' = batchCalls w @ take j (map (map chunk_content) bs)
     \<and> (\<forall>n. r = Inr n \<longrightarrow> j = length bs)"
proof (induction bs arbitrary: k w)
  case Nil
  then show ?case by auto
next
  case (Cons b bs)
  let ?w0 = "w\<lparr>batchCalls := batchCalls w @ [map chunk_content b]\<rparr>"
  obtain er w1 where
    c: "createEmbeddingBatch (embeddingService svc) (map chunk_content b) ?w0 = (er, w1)"
    by (cases "createEmbeddingBatch (embeddingService svc) (map chunk_content b) ?w0")
  from createEmbeddingBatch_logs [OF c]
  have l1: "batchCalls w1 = batchCalls w @ [map chunk_content b]" by simp
  note step = addBatches_step [OF c, of bs k]
  have one: "\<exists>j \<le> length (b # bs).
     batchCalls w1 = batchCalls w @ take j (map (map chunk_content) (b # bs))
     \<and> (\<forall>n. (Inl e :: error + nat) = Inr n \<longrightarrow> j = length (b # bs))" for e
    using l1 by (intro exI [of _ 1]) simp
  show ?case
  proof (cases er)
    case (Inl e)
    with Cons.prems step have "r = Inl e" "w' = w1" by auto
    with one [of e] show ?thesis by simp
  next
    case (Inr emb)
    let ?ps = "makePoints b emb"
    let ?w2 = "w1\<lparr>indexLog := indexLog w1 @ [Upsert ?ps]\<rparr>"
    show ?thesis
    proof (cases "qdrantUpsert svc ?ps")
      case (Inl e)
      with Cons.prems step Inr have "r = Inl e" "w' = ?w2" by auto
      with one [of e] show ?thesis by simp
    next
      case up: (Inr u)
      with Cons.prems step Inr have rest: "addBatches svc bs (k + length b) ?w2 = (r, w')"
        by simp
      from Cons.IH [OF rest] obtain j where
        j: "j \<le> length bs"
          "batchCalls w' = batchCalls ?w2 @ take j (map (map chunk_content) bs)"
          "\<forall>n. r = Inr n \<longrightarrow> j = length bs"
        by blast
      have "batchCalls w' = batchCalls w @ take (Suc j) (map (map chunk_content) (b # bs))"
        using j(2) l1 by simp
      with j(1,3) show ?thesis by (intro exI [of _ "Suc j"]) simp
    qed
  qed
qed

lemma addDocuments_calls:
  "\<exists>j \<le> length (sliceBatches 100 chunks 0).
     batchCalls (snd (addDocuments svc chunks w))
       = batchCalls w @ take j (map (map chunk_content) (sliceBatches 100 chunks 0))
     \<and> (\<forall>n. fst (addDocuments svc chunks w) = Inr n \<longrightarrow> j = length (sliceBatches 100 chunks 0))"
proof (cases "vs_initialized svc \<and> chunks \<noteq> []")
  case False
  then have "snd (addDocuments svc chunks w) = w" "isl (fst (addDocuments svc chunks w))"
    by (auto simp: addDocuments_def)
  then show ?thesis by (intro exI [of _ 0]) auto
next
  case True
  obtain r w' where ab: "addBatches svc (sliceBatches 100 chunks 0) 0 w = (r, w')"
    by (cases "addBatches svc (sliceBatches 100 chunks 0) 0 w")
  from addBatches_calls [OF ab] obtain j where
    j: "j \<le> length (sliceBatches 100 chunks 0)"
      "batchCalls w' = batchCalls w @ take j (map (map chunk_content) (sliceBatches 100 chunks 0))"
      "\<forall>n. r = Inr n \<longrightarrow> j = length (sliceBatches 100 chunks 0)"
    by blast
  have "snd (addDocuments svc chunks w) = w'"
    and "\<forall>n. fst (addDocuments svc chunks w) = Inr n \<longrightarrow> r = Inr n"
    using True ab by (auto simp: addDocuments_def split: sum.splits)
  with j show ?thesis by (intro exI [of _ j]) auto
qed

lemma createEmbedding_ok:
  assumes "embeddable svc t"
  shows "\<exists>r. fst (createEmbedding svc t w) = Inr r"
  using assms by (auto simp: embeddable_def rejectsAtOnce_def createEmbedding_def Let_def)

lemma embedEach_ok:
  "\<forall>t \<in> set ts. embeddable svc t \<Longrightarrow> \<exists>rs. fst (embedEach svc ts w) = map Inr rs"
proof (induction ts arbitrary: w)
  case Nil
  then show ?case by simp
next
  case (Cons t ts)
  obtain r w1 where c: "createEmbedding svc t w = (r, w1)" by (cases "createEmbedding svc t w")
  obtain rs w2 where e: "embedEach svc ts w1 = (rs, w2)" by (cases "embedEach svc ts w1")
  from createEmbedding_ok [of svc t w] Cons.prems c obtain x where x: "r = Inr x" by auto
  from Cons.IH [of w1] Cons.prems e obtain xs where xs: "rs = map Inr xs" by auto
  from c e x xs have "fst (embedEach svc (t # ts) w) = map Inr (x # xs)" by simp
  then show ?case by blast
qed

lemma allOrFirstRejection_values: "allOrFirstRejection (map Inr xs) = Inr xs"
  by (induction xs) simp_all

lemma no_early_rejection:
  assumes "\<forall>t \<in> set b. embeddable svc t"
  shows "filter (\<lambda>(text, promise). rejectsAtOnce svc text) (zip b ps) = []"
proof -
  have "\<not> rejectsAtOnce svc t" if "(t, p) \<in> set (zip b ps)" for t p
    using assms set_zip_leftD [OF that] by (simp add: embeddable_def)
  then show ?thesis by (auto simp: filter_empty_conv)
qed

lemma embedBatches_ok:
  "\<forall>b \<in> set bs. \<forall>t \<in> set b. embeddable svc t \<Longrightarrow>
   \<exists>r. fst (embedBatches svc bs embs tot w) = Inr r"
proof (induction bs arbitrary: embs tot w)
  case Nil
  then show ?case by simp
next
  case (Cons b bs)
  obtain ps w1 where e: "embedEach svc b w = (ps, w1)" by (cases "embedEach svc b w")
  from embedEach_ok [of b svc w] Cons.prems e obtain xs where xs: "ps = map Inr xs" by auto
  have early: "filter (\<lambda>(text, promise). rejectsAtOnce svc text) (zip b ps) = []"
    using no_early_rejection [of b svc ps] Cons.prems by simp
  have "embedBatches svc (b # bs) embs tot w
          = embedBatches svc bs (embs @ xs) (tot + sum_list (map emb_tokens_used xs)) w1"
    using e early xs by (simp add: promiseAll_def allOrFirstRejection_values)
  with Cons.IH [of "embs @ xs" "tot + sum_list (map emb_tokens_used xs)" w1] Cons.prems
  show ?case by simp
qed

lemma sliceBatches_subset:
  assumes "0 < n" "b \<in> set (sliceBatches n xs 0)"
  shows "set b \<subseteq> set xs"
proof -
  have "set b \<subseteq> set (concat (sliceBatches n xs 0))" using assms(2) by auto
  then show ?thesis using assms(1) by (simp add: sliceBatches_concat)
qed

lemma createEmbeddingBatch_ok:
  assumes "0 < length texts" "length texts \<le> 100" "\<forall>t \<in> set texts. embeddable svc t"
  shows "\<exists>r. fst (createEmbeddingBatch svc texts w) = Inr r"
proof -
  have "\<forall>b \<in> set (sliceBatches 5 texts 0). \<forall>t \<in> set b. embeddable svc t"
    using assms(3) sliceBatches_subset [of 5 _ texts] by auto
  from embedBatches_ok [OF this, of "[]" 0 w] obtain r where
    "fst (embedBatches svc (sliceBatches 5 texts 0) [] 0 w) = Inr r" by blast
  then show ?thesis
    using assms(1,2)
    by (cases "embedBatches svc (sliceBatches 5 texts 0) [] 0 w")
       (simp add: createEmbeddingBatch_def)
qed

lemma addBatches_all_ok:
  assumes "\<forall>ps. qdrantUpsert vs ps = Inr ()"
  shows "\<forall>b \<in> set bs. 0 < length b \<and> length b \<le> 100
            \<and> (\<forall>c \<in> set b. embeddable (embeddingService vs) (chunk_content c)) \<Longrightarrow>
         fst (addBatches vs bs k w) = Inr (k + length (concat bs))"
proof (induction bs arbitrary: k w)
  case Nil
  then show ?case by simp
next
  case (Cons b bs)
  let ?w0 = "w\<lparr>batchCalls := batchCalls w @ [map chunk_content b]\<rparr>"
  obtain er w1 where
    c: "createEmbeddingBatch (embeddingService vs) (map chunk_content b) ?w0 = (er, w1)"
    by (cases "createEmbeddingBatch (embeddingService vs) (map chunk_content b) ?w0")
  have "\<exists>r. fst (createEmbeddingBatch (embeddingService vs) (map chunk_content b) ?w0) = Inr r"
    using Cons.prems by (intro createEmbeddingBatch_ok) auto
  with c obtain emb where er: "er = Inr emb" by auto
  have "addBatches vs (b # bs) k w
          = addBatches vs bs (k + length b)
              (w1\<lparr>indexLog := indexLog w1 @ [Upsert (makePoints b emb)]\<rparr>)"
    using addBatches_step [OF c, of bs k] er assms by simp
  with Cons.IH [of "k + length b"] Cons.prems show ?case by simp
qed

lemma addDocuments_all_ok:
  assumes "vs_initialized vs" "chunks \<noteq> []" "\<forall>ps. qdrantUpsert vs ps = Inr ()"
    and "\<forall>c \<in> set chunks. embeddable (embeddingService vs) (chunk_content c)"
  shows "fst (addDocuments vs chunks w) = Inr (length chunks)"
proof -
  have "\<forall>b \<in> set (sliceBatches 100 chunks 0). 0 < length b \<and> length b \<le> 100
            \<and> (\<forall>c \<in> set b. embeddable (embeddingService vs) (chunk_content c))"
    using assms(4) sliceBatches_sizes [of _ 100 chunks 0] sliceBatches_subset [of 100 _ chunks]
    by auto
  from addBatches_all_ok [OF assms(3) this, of 0 w]
  show ?thesis
    using assms(1,2)
    by (cases "addBatches vs (sliceBatches 100 chunks 0) 0 w")
       (simp add: addDocuments_def sliceBatches_concat)
qed

lemma manyChunks_batches:
  "sliceBatches 100 manyChunks 0 = [replicate 100 chunkA, [chunkA]]"
  by (simp add: manyChunks_def sliceBatches_step sliceBatches_done)

lemma chunkA_embeddable: "embeddable (embeddingService vsUp) (chunk_content chunkA)"
  by (simp add: embeddable_def rejectsAtOnce_def vsUp_def embUp_def chunkA_def trim_def
      isWhitespace_def)

text \<open>
  C10.  \<open>createEmbeddingBatch\<close> on an empty list or on more than 100 texts returns an error
  and leaves the world as it was: no provider request has been issued.  The calls of
  \<open>createEmbeddingBatch\<close> that \<open>addDocuments\<close> makes are, in order, the text lists of the
  batches cut by \<open>sliceBatches 100\<close> (all of them when it returns a count, the first few
  when it fails); each holds between 1 and 100 texts, so none is refused by the two size
  checks.  With healthy services \<open>addDocuments\<close> therefore stores any number of chunks.
  The batches together are the chunks.
\<close>

theorem embedding_batch_cap:
  "((length texts = 0 \<or> length texts > 100) \<longrightarrow>
      (\<exists>e. createEmbeddingBatch svc texts w = (Inl e, w)))
   \<and> (\<exists>j \<le> length (sliceBatches 100 chunks 0).
         batchCalls (snd (addDocuments vs chunks w))
           = batchCalls w @ take j (map (map chunk_content) (sliceBatches 100 chunks 0))
         \<and> (\<forall>n. fst (addDocuments vs chunks w) = Inr n \<longrightarrow>
                j = length (sliceBatches 100 chunks 0)))
   \<and> (\<forall>call \<in> set (drop (length (batchCalls w)) (batchCalls (snd (addDocuments vs chunks w)))).
         0 < length call \<and> length call \<le> 100
         \<and> fst (createEmbeddingBatch svc call w1)
               \<noteq> Inl (Error ''Texts array is required for batch embedding'')
         \<and> fst (createEmbeddingBatch svc call w1)
               \<noteq> Inl (Error ''Too many texts for batch embedding (max: 100)''))
   \<and> (vs_initialized vs \<and> chunks \<noteq> [] \<and> (\<forall>ps. qdrantUpsert vs ps = Inr ())
        \<and> (\<forall>c \<in> set chunks. embeddable (embeddingService vs) (chunk_content c)) \<longrightarrow>
        fst (addDocuments vs chunks w) = Inr (length chunks))
   \<and> (\<forall>batch \<in> set (sliceBatches 100 chunks 0).
         0 < length (map chunk_content batch) \<and> length (map chunk_content batch) \<le> 100)
   \<and> concat (sliceBatches 100 chunks 0) = chunks"
proof (intro conjI)
  show "(length texts = 0 \<or> length texts > 100) \<longrightarrow>
      (\<exists>e. createEmbeddingBatch svc texts w = (Inl e, w))"
    by (auto simp: createEmbeddingBatch_def)
  show "\<exists>j \<le> length (sliceBatches 100 chunks 0).
         batchCalls (snd (addDocuments vs chunks w))
           = batchCalls w @ take j (map (map chunk_content) (sliceBatches 100 chunks 0))
         \<and> (\<forall>n. fst (addDocuments vs chunks w) = Inr n \<longrightarrow>
                j = length (sliceBatches 100 chunks 0))"
    by (rule addDocuments_calls)
  show "\<forall>call \<in> set (drop (length (batchCalls w)) (batchCalls (snd (addDocuments vs chunks w)))).
         0 < length call \<and> length call \<le> 100
         \<and> fst (createEmbeddingBatch svc call w1)
               \<noteq> Inl (Error ''Texts array is required for batch embedding'')
         \<and> fst (createEmbeddingBatch svc call w1)
               \<noteq> Inl (Error ''Too many texts for batch embedding (max: 100)'')"
  proof
    fix call
    assume m: "call \<in> set (drop (length (batchCalls w))
                          (batchCalls (snd (addDocuments vs chunks w))))"
    from addDocuments_calls [of chunks vs w] obtain j where
      "batchCalls (snd (addDocuments vs chunks w))
         = batchCalls w @ take j (map (map chunk_content) (sliceBatches 100 chunks 0))"
      by blast
    with m have "call \<in> set (take j (map (map chunk_content) (sliceBatches 100 chunks 0)))"
      by simp
    then have "call \<in> set (map (map chunk_content) (sliceBatches 100 chunks 0))"
      by (rule in_set_takeD)
    then obtain batch where "batch \<in> set (sliceBatches 100 chunks 0)"
      and "call = map chunk_content batch" by auto
    with sliceBatches_sizes [of batch 100 chunks 0]
    have size: "0 < length call" "length call \<le> 100" by simp_all
    with createEmbeddingBatch_within_cap [OF size, of svc w1]
    show "0 < length call \<and> length call \<le> 100
         \<and> fst (createEmbeddingBatch svc call w1)
               \<noteq> Inl (Error ''Texts array is required for batch embedding'')
         \<and> fst (createEmbeddingBatch svc call w1)
               \<noteq> Inl (Error ''Too many texts for batch embedding (max: 100)'')"
      by blast
  qed
  show "vs_initialized vs \<and> chunks \<noteq> [] \<and> (\<forall>ps. qdrantUpsert vs ps = Inr ())
        \<and> (\<forall>c \<in> set chunks. embeddable (embeddingService vs) (chunk_content c)) \<longrightarrow>
        fst (addDocuments vs chunks w) = Inr (length chunks)"
    using addDocuments_all_ok [of vs chunks w] by blast
  show "\<forall>batch \<in> set (sliceBatches 100 chunks 0).
         0 < length (map chunk_content batch) \<and> length (map chunk_content batch) \<le> 100"
    using sliceBatches_sizes [of _ 100 chunks 0] by simp
  show "concat (sliceBatches 100 chunks 0) = chunks"
    by (simp add: sliceBatches_concat)
qed

theorem embedding_batch_cap_witness:
  "length (replicate 101 ''a'') > 100
   \<and> (\<exists>e. createEmbeddingBatch embUp (replicate 101 ''a'') world0 = (Inl e, world0))
   \<and> vs_initialized vsUp \<and> manyChunks \<noteq> [] \<and> length manyChunks = 101
   \<and> fst (addDocuments vsUp manyChunks world0) = Inr 101
   \<and> batchCalls (snd (addDocuments vsUp manyChunks world0))
       = [replicate 100 (chunk_content chunkA), [chunk_content chunkA]]
   \<and> concat (sliceBatches 100 manyChunks 0) = manyChunks"
proof -
  note cap = embedding_batch_cap [of "replicate 101 ''a''" embUp world0 manyChunks vsUp world0]
  have h1: "length (replicate 101 ''a'') > 100" by simp
  have h2: "vs_initialized vsUp" "\<forall>ps. qdrantUpsert vsUp ps = Inr ()"
    by (simp_all add: vsUp_def)
  have h3: "manyChunks \<noteq> []" "length manyChunks = 101" by (simp_all add: manyChunks_def)
  have h4: "\<forall>c \<in> set manyChunks. embeddable (embeddingService vsUp) (chunk_content c)"
    using chunkA_embeddable by (simp add: manyChunks_def)
  have ok: "fst (addDocuments vsUp manyChunks world0) = Inr 101"
    using cap h2 h3 h4 by simp
  from cap obtain j where
    j: "batchCalls (snd (addDocuments vsUp manyChunks world0))
          = batchCalls world0 @ take j (map (map chunk_content) (sliceBatches 100 manyChunks 0))"
       "\<forall>n. fst (addDocuments vsUp manyChunks world0) = Inr n \<longrightarrow>
                j = length (sliceBatches 100 manyChunks 0)"
    by blast
  from j(2) ok have "j = 2" by (simp add: manyChunks_batches)
  with j(1) have calls: "batchCalls (snd (addDocuments vsUp manyChunks world0))
       = [replicate 100 (chunk_content chunkA), [chunk_content chunkA]]"
    by (simp add: manyChunks_batches world0_def)
  have first: "\<exists>e. createEmbeddingBatch embUp (replicate 101 ''a'') world0 = (Inl e, world0)"
    using cap h1 by blast
  have whole: "concat (sliceBatches 100 manyChunks 0) = manyChunks"
    using cap by blast
  show ?thesis using h1 first h2(1) h3 ok calls whole by blast
qed

text \<open>
  C4 (amended).  For a search on an initialized gateway with a non-blank query: if the
  embedding call or the index call fails, \<open>VectorService.search\<close> fails towards its caller
  with the error \<open>Vector search failed: ...\<close>; it is the chat route's
  \<open>performVectorSearch\<close> that turns this failure into the empty result list.
\<close>

theorem search_failure_propagates:
  assumes "vs_initialized svc" and "query \<noteq> []" and "trim query \<noteq> []"
  shows "(underlyingCallFails svc query options w \<longrightarrow>
            (\<exists>m. fst (search svc query options w) = Inl (Error (''Vector search failed: '' @ m))))
         \<and> (underlyingCallFails svc query chatSearchOptions w \<longrightarrow>
              fst (performVectorSearch svc query w) = [])"
proof -
  have a: "\<exists>m. fst (search svc query opts w) = Inl (Error (''Vector search failed: '' @ m))"
    if "underlyingCallFails svc query opts w" for opts
    using that assms
    by (auto simp: underlyingCallFails_def search_def Let_def isl_def
        split: prod.splits sum.splits)
  have "fst (performVectorSearch svc query w) = []"
    if "underlyingCallFails svc query chatSearchOptions w"
    using a [OF that] assms(1)
    by (auto simp: performVectorSearch_def isAvailable_def split: prod.splits sum.splits)
  with a show ?thesis by blast
qed

theorem search_failure_propagates_witness:
  "vs_initialized vsIndexDown \<and> ''budget'' \<noteq> [] \<and> trim ''budget'' \<noteq> []
   \<and> underlyingCallFails vsIndexDown ''budget'' chatSearchOptions world0
   \<and> (\<exists>m. fst (search vsIndexDown ''budget'' chatSearchOptions world0)
            = Inl (Error (''Vector search failed: '' @ m)))
   \<and> fst (performVectorSearch vsIndexDown ''budget'' world0) = []"
proof -
  have h1: "vs_initialized vsIndexDown" by (simp add: vsIndexDown_def)
  have h2: "''budget'' \<noteq> []" by simp
  have h3: "trim ''budget'' \<noteq> []" by (simp add: trim_def isWhitespace_def)
  have h4: "underlyingCallFails vsIndexDown ''budget'' chatSearchOptions world0"
    by code_simp
  show ?thesis
    using h1 h2 h3 h4 search_failure_propagates [OF h1 h2 h3, of chatSearchOptions world0]
    by blast
qed

text \<open>
  C4 as stated fails: with the embedding provider down, \<open>VectorService.search\<close> returns an
  error, not the empty list.
\<close>

theorem search_returns_error_counterexample:
  "vs_initialized vsEmbedDown
   \<and> underlyingCallFails vsEmbedDown ''budget'' chatSearchOptions world0
   \<and> fst (search vsEmbedDown ''budget'' chatSearchOptions world0)
       = Inl (Error ''Vector search failed: Embedding generation failed: down'')
   \<and> fst (search vsEmbedDown ''budget'' chatSearchOptions world0) \<noteq> Inr []"
  by code_simp

lemma sliceBatches_nonempty: "xs \<noteq> [] \<Longrightarrow> 0 < n \<Longrightarrow> sliceBatches n xs 0 \<noteq> []"
  by (simp add: sliceBatches_step)

lemma addDocuments_ok:
  assumes "fst (addDocuments svc chunks w) = Inr n"
  shows "n = length chunks \<and> chunks \<noteq> []
         \<and> (\<exists>new. indexLog (snd (addDocuments svc chunks w)) = indexLog w @ new
               \<and> new \<noteq> []
               \<and> (\<forall>r \<in> set new. \<exists>ps. r = Upsert ps \<and> qdrantUpsert svc ps = Inr ()))"
proof -
  from assms have init: "vs_initialized svc" and ne: "chunks \<noteq> []"
    by (auto simp: addDocuments_def split: if_splits)
  obtain r w' where ab: "addBatches svc (sliceBatches 100 chunks 0) 0 w = (r, w')"
    by (cases "addBatches svc (sliceBatches 100 chunks 0) 0 w")
  with assms init ne have r: "r = Inr n" and w': "snd (addDocuments svc chunks w) = w'"
    by (auto simp: addDocuments_def split: sum.splits)
  from addBatches_ok [OF ab [unfolded r]] obtain new where
    n: "n = length (concat (sliceBatches 100 chunks 0))" and
    new: "indexLog w' = indexLog w @ new" "length new = length (sliceBatches 100 chunks 0)"
      "\<forall>r \<in> set new. \<exists>ps. r = Upsert ps \<and> qdrantUpsert svc ps = Inr ()"
    by auto
  have "new \<noteq> []" using new(2) sliceBatches_nonempty [OF ne, of 100] by auto
  with n new w' ne show ?thesis by (auto simp: sliceBatches_concat)
qed

text \<open>
  C5 (amended).  \<open>addDocuments\<close> returns a count only when every upsert it issued
  succeeded (the count is then the number of chunks), and fails when the index rejects
  upserts.  On an initialized gateway \<open>deleteDocument\<close> returns \<open>true\<close> when the index
  delete succeeded and \<open>false\<close> when it failed, and \<open>deleteChunks\<close> returns the number of
  ids when it succeeded and \<open>0\<close> when it failed (and \<open>0\<close> for an empty id list, without
  asking the index); both fail only when the gateway is not initialized.
\<close>

theorem mutation_error_policy:
  "(fst (addDocuments svc chunks w) = Inr n \<longrightarrow>
      n = length chunks \<and> chunks \<noteq> []
      \<and> (\<forall>r \<in> set (drop (length (indexLog w)) (indexLog (snd (addDocuments svc chunks w)))).
            \<exists>ps. r = Upsert ps \<and> qdrantUpsert svc ps = Inr ()))
   \<and> ((\<forall>ps. isl (qdrantUpsert svc ps)) \<longrightarrow> isl (fst (addDocuments svc chunks w)))
   \<and> (vs_initialized svc \<longrightarrow>
        fst (deleteDocument svc documentId w)
          = Inr (\<not> isl (qdrantDelete svc (DeleteByDocument documentId))))
   \<and> (vs_initialized svc \<longrightarrow>
        fst (deleteChunks svc chunkIds w)
          = Inr (if isl (qdrantDelete svc (DeletePoints chunkIds)) then 0 else length chunkIds))
   \<and> (\<not> vs_initialized svc \<longrightarrow>
        isl (fst (deleteDocument svc documentId w)) \<and> isl (fst (deleteChunks svc chunkIds w)))"
proof (intro conjI impI)
  assume ok: "fst (addDocuments svc chunks w) = Inr n"
  from addDocuments_ok [OF ok] show "n = length chunks" "chunks \<noteq> []" by auto
  from addDocuments_ok [OF ok]
  show "\<forall>r \<in> set (drop (length (indexLog w)) (indexLog (snd (addDocuments svc chunks w)))).
            \<exists>ps. r = Upsert ps \<and> qdrantUpsert svc ps = Inr ()"
    by auto
next
  assume down: "\<forall>ps. isl (qdrantUpsert svc ps)"
  show "isl (fst (addDocuments svc chunks w))"
  proof (cases "fst (addDocuments svc chunks w)")
    case (Inl e)
    then show ?thesis by simp
  next
    case (Inr n)
    from addDocuments_ok [OF Inr] obtain r ps where "qdrantUpsert svc ps = Inr ()"
      by (cases "drop (length (indexLog w)) (indexLog (snd (addDocuments svc chunks w)))") auto
    with down have False by (metis sum.disc(2))
    then show ?thesis ..
  qed
next
  assume "vs_initialized svc"
  then show "fst (deleteDocument svc documentId w)
          = Inr (\<not> isl (qdrantDelete svc (DeleteByDocument documentId)))"
    by (auto simp: deleteDocument_def Let_def split: sum.splits)
next
  assume "vs_initialized svc"
  then show "fst (deleteChunks svc chunkIds w)
          = Inr (if isl (qdrantDelete svc (DeletePoints chunkIds)) then 0 else length chunkIds)"
    by (auto simp: deleteChunks_def Let_def split: sum.splits)
next
  assume "\<not> vs_initialized svc"
  then show "isl (fst (deleteDocument svc documentId w))"
    and "isl (fst (deleteChunks svc chunkIds w))"
    by (auto simp: deleteDocument_def deleteChunks_def)
qed

theorem mutation_error_policy_witness:
  "fst (addDocuments vsUp [chunkA] world0) = Inr 1 \<and> 1 = length [chunkA]
   \<and> (\<forall>ps. isl (qdrantUpsert vsIndexDown ps))
   \<and> isl (fst (addDocuments vsIndexDown [chunkA] world0))
   \<and> vs_initialized vsIndexDown \<and> [''doc_x_chunk_000''] \<noteq> []
   \<and> fst (deleteDocument vsIndexDown ''doc_x'' world0) = Inr False
   \<and> fst (deleteChunks vsIndexDown [''doc_x_chunk_000''] world0) = Inr 0"
proof -
  have h0: "fst (addDocuments vsUp [chunkA] world0) = Inr 1" by code_simp
  have h1: "\<forall>ps. isl (qdrantUpsert vsIndexDown ps)" by (simp add: vsIndexDown_def)
  have h2: "vs_initialized vsIndexDown" by (simp add: vsIndexDown_def)
  have h3: "isl (qdrantDelete vsIndexDown (DeleteByDocument ''doc_x''))"
    "isl (qdrantDelete vsIndexDown (DeletePoints [''doc_x_chunk_000'']))"
    by (simp_all add: vsIndexDown_def)
  have up: "1 = length [chunkA]"
    using h0 mutation_error_policy [of vsUp "[chunkA]" world0 1 "''doc_x''" "[''doc_x_chunk_000'']"]
    by blast
  show ?thesis
    using h0 h1 h2 h3 up
      mutation_error_policy [of vsIndexDown "[chunkA]" world0 1 "''doc_x''" "[''doc_x_chunk_000'']"]
    by simp
qed

text \<open>
  C5 as stated fails: with the index down, \<open>deleteChunks\<close> returns \<open>0\<close>, the value it
  also returns for an empty id list, and \<open>deleteDocument\<close> returns \<open>false\<close>; neither
  fails.
\<close>

theorem delete_swallows_error_counterexample:
  "vs_initialized vsIndexDown
   \<and> qdrantDelete vsIndexDown (DeletePoints [''doc_x_chunk_000'']) = Inl (Error ''index down'')
   \<and> fst (deleteChunks vsIndexDown [''doc_x_chunk_000''] world0) = Inr 0
   \<and> fst (deleteChunks vsIndexDown [] world0) = Inr 0
   \<and> qdrantDelete vsIndexDown (DeleteByDocument ''doc_x'') = Inl (Error ''index down'')
   \<and> fst (deleteDocument vsIndexDown ''doc_x'' world0) = Inr False"
  by code_simp

section \<open>Properties of the chat route and the generation service\<close>

lemma chatPost_valid:
  assumes "message req \<noteq> []" "trim (message req) \<noteq> []" "length (message req) \<le> 4000"
    and "retrieveContext env (message req) (history (sessionAfterUser sessions req uuid now)) w
           = (context, w1)"
    and "generateResponse (generationService env) (message req) context
           (requestMaxTokens req) (requestTemperature req) w1 = (aiResponse, w2)"
  shows "chatPost env req uuid now sessions w =
     (Success \<lparr>answer = ai_content aiResponse,
               resp_session_id = orString (req_session_id req) uuid,
               sources = search_results context, tokens_used = ai_tokens_used aiResponse,
               model_used = ai_model aiResponse\<rparr>,
      sessions(orString (req_session_id req) uuid \<mapsto>
        (sessionAfterUser sessions req uuid now)
          \<lparr>history := sliceLast 10 (history (sessionAfterUser sessions req uuid now)
               @ [assistantMessageOf aiResponse (length (search_results context)) now]),
           last_activity := now\<rparr>),
      w2)"
  using assms by (simp add: chatPost_def Let_def sliceLast_def)

lemma chatPost_invalid:
  assumes "\<not> (message req \<noteq> [] \<and> trim (message req) \<noteq> [] \<and> length (message req) \<le> 4000)"
  shows "fst (snd (chatPost env req uuid now sessions w)) = sessions
         \<and> snd (snd (chatPost env req uuid now sessions w)) = w
         \<and> (\<exists>m c. fst (chatPost env req uuid now sessions w) = Failure m c 400)"
  using assms by (auto simp: chatPost_def)

lemma generateResponse_fallback:
  assumes "getAvailableProviders svc = []
           \<or> isl (fst (gs_generateResponse svc (buildMessages query context)
                          (chatGenerationOptions maxTokens temp) w))"
  shows "fst (generateResponse svc query context maxTokens temp w) = fallbackResponse"
  using assms
  by (auto simp: generateResponse_def isl_def split: prod.splits sum.splits)

text \<open>
  C1.  For a chat request that passes validation: if no generation provider is available,
  or the call of the generation service made for this request (with the messages built
  from the retrieved context) fails, the route still answers with a success response
  whose answer is the fixed apology, with model \<open>fallback\<close> and \<open>tokens_used = 0\<close>; the
  route's \<open>generateResponse\<close> has returned the fallback record, whose provider is \<open>system\<close>.
\<close>

theorem generation_failure_fallback:
  assumes "message req \<noteq> []" and "trim (message req) \<noteq> []" and "length (message req) \<le> 4000"
    and "retrieveContext env (message req) (history (sessionAfterUser sessions req uuid now)) w
           = (context, w1)"
    and "getAvailableProviders (generationService env) = []
         \<or> isl (fst (gs_generateResponse (generationService env)
                        (buildMessages (message req) context)
                        (chatGenerationOptions (requestMaxTokens req) (requestTemperature req))
                        w1))"
  shows "\<exists>resp sessions' w'.
           chatPost env req uuid now sessions w = (Success resp, sessions', w')
           \<and> answer resp = fallbackContent \<and> model_used resp = ''fallback''
           \<and> tokens_used resp = 0
           \<and> fst (generateResponse (generationService env) (message req) context
                     (requestMaxTokens req) (requestTemperature req) w1)
               = \<lparr>ai_content = fallbackContent, ai_model = ''fallback'', ai_tokens_used = 0,
                  ai_provider = ''system''\<rparr>"
proof -
  obtain ai w2 where g: "generateResponse (generationService env) (message req) context
           (requestMaxTokens req) (requestTemperature req) w1 = (ai, w2)"
    by (cases "generateResponse (generationService env) (message req) context
           (requestMaxTokens req) (requestTemperature req) w1")
  from generateResponse_fallback [OF assms(5)] g have ai: "ai = fallbackResponse" by simp
  show ?thesis
    using chatPost_valid [OF assms(1-4) g] g ai by (simp add: fallbackResponse_def)
qed

theorem generation_failure_fallback_witness:
  "message hello \<noteq> [] \<and> trim (message hello) \<noteq> [] \<and> length (message hello) \<le> 4000
   \<and> getAvailableProviders (generationService envNoProviders) = []
   \<and> (\<exists>resp sessions' w'.
           chatPost envNoProviders hello ''u1'' ''t1'' Map.empty world0 = (Success resp, sessions', w')
           \<and> answer resp = fallbackContent \<and> model_used resp = ''fallback''
           \<and> tokens_used resp = 0)"
proof -
  have h1: "message hello \<noteq> []" by (simp add: hello_def)
  have h2: "trim (message hello) \<noteq> []" by (simp add: hello_def trim_def isWhitespace_def)
  have h3: "length (message hello) \<le> 4000" by (simp add: hello_def)
  have h4: "getAvailableProviders (generationService envNoProviders) = []"
    by (simp add: envNoProviders_def genNone_def initialize_def getAvailableProviders_def)
  have h5: "retrieveContext envNoProviders (message hello)
              (history (sessionAfterUser Map.empty hello ''u1'' ''t1'')) world0
            = (fst (retrieveContext envNoProviders (message hello)
                 (history (sessionAfterUser Map.empty hello ''u1'' ''t1'')) world0),
               snd (retrieveContext envNoProviders (message hello)
                 (history (sessionAfterUser Map.empty hello ''u1'' ''t1'')) world0))"
    by simp
  show ?thesis
    using h1 h2 h3 h4 generation_failure_fallback [OF h1 h2 h3 h5 disjI1 [OF h4]]
    by blast
qed


lemma sliceLast_length: "length (sliceLast n xs) \<le> n"
  by (simp add: sliceLast_def)

lemma chatPost_history:
  assumes "message req \<noteq> []" "trim (message req) \<noteq> []" "length (message req) \<le> 4000"
  shows "\<exists>resp s' a.
           fst (chatPost env req uuid now sessions w) = Success resp
           \<and> resp_session_id resp = orString (req_session_id req) uuid
           \<and> fst (snd (chatPost env req uuid now sessions w)) (orString (req_session_id req) uuid)
               = Some s'
           \<and> role a = Assistant \<and> content a = answer resp
           \<and> history s'
               = sliceLast 10 (history (resolveSession sessions
                                          (orString (req_session_id req) uuid) now)
                                @ [userMessageOf (message req) now, a])
           \<and> (\<forall>sid. sid \<noteq> orString (req_session_id req) uuid \<longrightarrow>
                  fst (snd (chatPost env req uuid now sessions w)) sid = sessions sid)"
proof -
  obtain ctx w1 where c: "retrieveContext env (message req)
      (history (sessionAfterUser sessions req uuid now)) w = (ctx, w1)"
    by (cases "retrieveContext env (message req)
      (history (sessionAfterUser sessions req uuid now)) w")
  obtain ai w2 where g: "generateResponse (generationService env) (message req) ctx
           (requestMaxTokens req) (requestTemperature req) w1 = (ai, w2)"
    by (cases "generateResponse (generationService env) (message req) ctx
           (requestMaxTokens req) (requestTemperature req) w1")
  define a where "a = assistantMessageOf ai (length (search_results ctx)) now"
  define sid where "sid = orString (req_session_id req) uuid"
  define resp where "resp = \<lparr>answer = ai_content ai, resp_session_id = sid,
               sources = search_results ctx, tokens_used = ai_tokens_used ai,
               model_used = ai_model ai\<rparr>"
  define s' where "s' = (sessionAfterUser sessions req uuid now)
          \<lparr>history := sliceLast 10 (history (sessionAfterUser sessions req uuid now) @ [a]),
           last_activity := now\<rparr>"
  have p: "chatPost env req uuid now sessions w = (Success resp, sessions(sid \<mapsto> s'), w2)"
    using chatPost_valid [OF assms c g] by (simp add: a_def sid_def resp_def s'_def)
  have h: "history s' = sliceLast 10 (history (resolveSession sessions sid now)
                                @ [userMessageOf (message req) now, a])"
    by (simp add: s'_def sid_def sessionAfterUser_def Let_def)
  have a: "role a = Assistant" "content a = answer resp"
    by (simp_all add: a_def resp_def assistantMessageOf_def)
  have r: "resp_session_id resp = sid" by (simp add: resp_def)
  have c1: "fst (chatPost env req uuid now sessions w) = Success resp" by (simp add: p)
  have c2: "fst (snd (chatPost env req uuid now sessions w)) sid = Some s'" by (simp add: p)
  have c3: "\<forall>x. x \<noteq> sid \<longrightarrow> fst (snd (chatPost env req uuid now sessions w)) x = sessions x"
    by (simp add: p)
  from c1 r c2 a h c3 show ?thesis unfolding sid_def by blast
qed

lemma chatPost_capped:
  assumes "\<forall>sid s. sessions sid = Some s \<longrightarrow> length (history s) \<le> 10"
    and "fst (snd (chatPost env req uuid now sessions w)) sid = Some s"
  shows "length (history s) \<le> 10"
proof (cases "message req \<noteq> [] \<and> trim (message req) \<noteq> [] \<and> length (message req) \<le> 4000")
  case True
  then obtain s' a where
    r: "fst (snd (chatPost env req uuid now sessions w)) (orString (req_session_id req) uuid)
          = Some s'"
      "history s' = sliceLast 10 (history (resolveSession sessions
                                          (orString (req_session_id req) uuid) now)
                                @ [userMessageOf (message req) now, a])"
      "\<forall>sid. sid \<noteq> orString (req_session_id req) uuid \<longrightarrow>
                  fst (snd (chatPost env req uuid now sessions w)) sid = sessions sid"
    using chatPost_history [of req env uuid now sessions w] by blast
  show ?thesis
  proof (cases "sid = orString (req_session_id req) uuid")
    case True
    with r(1,2) assms(2) show ?thesis by (simp add: sliceLast_length)
  next
    case False
    with r(3) assms show ?thesis by simp
  qed
next
  case False
  from chatPost_invalid [OF False] assms show ?thesis by simp
qed

lemma chatRun_capped:
  assumes "\<forall>sid s. sessions sid = Some s \<longrightarrow> length (history s) \<le> 10"
  shows "\<forall>sid s. fst (chatRun calls sessions w) sid = Some s \<longrightarrow> length (history s) \<le> 10"
  using assms
proof (induction calls arbitrary: sessions w)
  case Nil
  then show ?case by simp
next
  case (Cons call calls)
  obtain env req uuid now where call: "call = (env, req, uuid, now)" by (cases call) auto
  obtain r s1 w1 where p: "chatPost env req uuid now sessions w = (r, s1, w1)"
    by (cases "chatPost env req uuid now sessions w") auto
  have "\<forall>sid s. s1 sid = Some s \<longrightarrow> length (history s) \<le> 10"
    using chatPost_capped [OF Cons.prems, of env req uuid now w] p by simp
  from Cons.IH [OF this] show ?case using call p by simp
qed

lemma sliceLast_absorb: "sliceLast n (sliceLast n xs @ ys) = sliceLast n (xs @ ys)"
proof (cases "length xs \<le> n")
  case True
  then show ?thesis by (simp add: sliceLast_def)
next
  case False
  then have k: "length (drop (length xs - n) xs) = n" by simp
  have "sliceLast n (sliceLast n xs @ ys) = drop (length ys) (drop (length xs - n) xs @ ys)"
    using k by (simp add: sliceLast_def)
  also have "\<dots> = drop (length ys) (drop (length xs - n) (xs @ ys))" by simp
  also have "\<dots> = drop (length ys + (length xs - n)) (xs @ ys)" by (simp only: drop_drop)
  also have "\<dots> = sliceLast n (xs @ ys)"
    using False by (simp add: sliceLast_def add.commute)
  finally show ?thesis .
qed

lemma sliceLast_short: "length xs \<le> n \<Longrightarrow> sliceLast n xs = xs"
  by (simp add: sliceLast_def)

lemma resolveSession_history: "history (resolveSession sessions sid now) = historyOf sessions sid"
  by (simp add: resolveSession_def historyOf_def split: option.splits)


lemma passesValidation_iff:
  "passesValidation req \<longleftrightarrow>
     message req \<noteq> [] \<and> trim (message req) \<noteq> [] \<and> length (message req) \<le> 4000"
  by (auto simp: passesValidation_def)

lemma chatRun_history:
  assumes "\<forall>sid s. sessions sid = Some s \<longrightarrow> length (history s) \<le> 10"
    and "fst (chatRun calls sessions w) sid = Some s"
  shows "\<exists>as. length as = length (callsOn sid calls) \<and> (\<forall>a \<in> set as. role a = Assistant)
           \<and> history s = sliceLast 10 (historyOf sessions sid @ turns (callsOn sid calls) as)"
  using assms
proof (induction calls arbitrary: sessions w)
  case Nil
  then have "sessions sid = Some s" by simp
  with Nil.prems(1) have "history s = sliceLast 10 (historyOf sessions sid)"
    by (simp add: historyOf_def sliceLast_short)
  then show ?case by (simp add: callsOn_def)
next
  case (Cons call calls)
  obtain env req uuid now where call: "call = (env, req, uuid, now)" by (cases call) auto
  obtain r s1 w1 where p: "chatPost env req uuid now sessions w = (r, s1, w1)"
    by (cases "chatPost env req uuid now sessions w") auto
  have inv1: "\<forall>sid s. s1 sid = Some s \<longrightarrow> length (history s) \<le> 10"
    using chatPost_capped [OF Cons.prems(1), of env req uuid now w] p by simp
  have run: "fst (chatRun calls s1 w1) sid = Some s"
    using Cons.prems(2) call p by simp
  from Cons.IH [OF inv1 run] obtain as where
    as: "length as = length (callsOn sid calls)" "\<forall>a \<in> set as. role a = Assistant"
      "history s = sliceLast 10 (historyOf s1 sid @ turns (callsOn sid calls) as)"
    by blast
  show ?case
  proof (cases "passesValidation req")
    case False
    then have "s1 = sessions"
      using chatPost_invalid [of req env uuid now sessions w] p
      by (simp add: passesValidation_iff)
    moreover have "callsOn sid (call # calls) = callsOn sid calls"
      using False call by (simp add: callsOn_def)
    ultimately show ?thesis using as by auto
  next
    case True
    then have v: "message req \<noteq> []" "trim (message req) \<noteq> []" "length (message req) \<le> 4000"
      by (simp_all add: passesValidation_iff)
    from chatPost_history [OF v, of env uuid now sessions w] p obtain s' a where
      h: "s1 (orString (req_session_id req) uuid) = Some s'" "role a = Assistant"
        "history s' = sliceLast 10 (history (resolveSession sessions
                                          (orString (req_session_id req) uuid) now)
                                @ [userMessageOf (message req) now, a])"
        "\<forall>x. x \<noteq> orString (req_session_id req) uuid \<longrightarrow> s1 x = sessions x"
      by auto
    show ?thesis
    proof (cases "orString (req_session_id req) uuid = sid")
      case False
      then have "historyOf s1 sid = historyOf sessions sid"
        using h(4) by (simp add: historyOf_def)
      moreover have "callsOn sid (call # calls) = callsOn sid calls"
        using False call by (simp add: callsOn_def)
      ultimately show ?thesis using as by auto
    next
      case same: True
      have c: "callsOn sid (call # calls) = call # callsOn sid calls"
        using same True call by (simp add: callsOn_def)
      have "historyOf s1 sid
              = sliceLast 10 (historyOf sessions sid @ [userMessageOf (message req) now, a])"
        using h(1,3) same by (simp add: historyOf_def resolveSession_history)
      then have "history s
              = sliceLast 10 (historyOf sessions sid
                   @ userMessageOf (message req) now # a # turns (callsOn sid calls) as)"
        using as(3) by (simp add: sliceLast_absorb)
      then have "history s
              = sliceLast 10 (historyOf sessions sid @ turns (callsOn sid (call # calls)) (a # as))"
        using c call by simp
      moreover have "length (a # as) = length (callsOn sid (call # calls))"
        using as(1) c by simp
      moreover have "\<forall>x \<in> set (a # as). role x = Assistant"
        using as(2) h(2) by simp
      ultimately show ?thesis by blast
    qed
  qed
qed

text \<open>
  C6.  A chat request that passes validation leaves its session with the last ten of
  (the session's earlier messages, then the user message, then the assistant message), in
  that order, so with at most ten messages, and leaves the other sessions alone; a request
  that fails validation changes no session.  Hence after any sequence of chat requests
  on an empty store every session holds at most ten messages, and they are exactly the
  last ten of all the messages appended to it (user message, assistant message, user
  message, ... in the order of its requests).
\<close>

theorem history_cap:
  "(message req \<noteq> [] \<and> trim (message req) \<noteq> [] \<and> length (message req) \<le> 4000 \<longrightarrow>
      (\<exists>resp s' a.
           fst (chatPost env req uuid now sessions w) = Success resp
           \<and> fst (snd (chatPost env req uuid now sessions w)) (resp_session_id resp) = Some s'
           \<and> role a = Assistant \<and> content a = answer resp
           \<and> history s'
               = sliceLast 10 (history (resolveSession sessions (resp_session_id resp) now)
                                @ [userMessageOf (message req) now, a])
           \<and> length (history s') \<le> 10
           \<and> (\<forall>sid. sid \<noteq> resp_session_id resp \<longrightarrow>
                  fst (snd (chatPost env req uuid now sessions w)) sid = sessions sid)))
   \<and> (\<not> (message req \<noteq> [] \<and> trim (message req) \<noteq> [] \<and> length (message req) \<le> 4000) \<longrightarrow>
        fst (snd (chatPost env req uuid now sessions w)) = sessions)
   \<and> (\<forall>sid s. fst (chatRun calls Map.empty w) sid = Some s \<longrightarrow>
         length (history s) \<le> 10
         \<and> (\<exists>as. length as = length (callsOn sid calls)
                \<and> (\<forall>a \<in> set as. role a = Assistant)
                \<and> history s = sliceLast 10 (turns (callsOn sid calls) as)))"
proof (intro conjI impI allI)
  assume v: "message req \<noteq> [] \<and> trim (message req) \<noteq> [] \<and> length (message req) \<le> 4000"
  then obtain resp s' a where
    r: "fst (chatPost env req uuid now sessions w) = Success resp"
      "resp_session_id resp = orString (req_session_id req) uuid"
      "fst (snd (chatPost env req uuid now sessions w)) (orString (req_session_id req) uuid)
         = Some s'"
      "role a = Assistant" "content a = answer resp"
      "history s' = sliceLast 10 (history (resolveSession sessions
                                          (orString (req_session_id req) uuid) now)
                                @ [userMessageOf (message req) now, a])"
      "\<forall>sid. sid \<noteq> orString (req_session_id req) uuid \<longrightarrow>
                  fst (snd (chatPost env req uuid now sessions w)) sid = sessions sid"
    using chatPost_history [of req env uuid now sessions w] by blast
  from r(6) have len: "length (history s') \<le> 10" by (simp add: sliceLast_length)
  have "fst (chatPost env req uuid now sessions w) = Success resp
           \<and> fst (snd (chatPost env req uuid now sessions w)) (resp_session_id resp) = Some s'
           \<and> role a = Assistant \<and> content a = answer resp
           \<and> history s'
               = sliceLast 10 (history (resolveSession sessions (resp_session_id resp) now)
                                @ [userMessageOf (message req) now, a])
           \<and> length (history s') \<le> 10
           \<and> (\<forall>sid. sid \<noteq> resp_session_id resp \<longrightarrow>
                  fst (snd (chatPost env req uuid now sessions w)) sid = sessions sid)"
    unfolding r(2) using r(1,3-7) len by (intro conjI)
  then show "\<exists>resp s' a.
           fst (chatPost env req uuid now sessions w) = Success resp
           \<and> fst (snd (chatPost env req uuid now sessions w)) (resp_session_id resp) = Some s'
           \<and> role a = Assistant \<and> content a = answer resp
           \<and> history s'
               = sliceLast 10 (history (resolveSession sessions (resp_session_id resp) now)
                                @ [userMessageOf (message req) now, a])
           \<and> length (history s') \<le> 10
           \<and> (\<forall>sid. sid \<noteq> resp_session_id resp \<longrightarrow>
                  fst (snd (chatPost env req uuid now sessions w)) sid = sessions sid)"
    by (intro exI)
next
  assume "\<not> (message req \<noteq> [] \<and> trim (message req) \<noteq> [] \<and> length (message req) \<le> 4000)"
  from chatPost_invalid [OF this]
  show "fst (snd (chatPost env req uuid now sessions w)) = sessions" by simp
next
  fix sid s
  assume run: "fst (chatRun calls Map.empty w) sid = Some s"
  have inv: "\<forall>sid s. Map.empty sid = Some s \<longrightarrow> length (history s) \<le> 10" by simp
  from chatRun_capped [OF inv, of calls w] run
  show "length (history s) \<le> 10" by blast
  from chatRun_history [OF inv run]
  show "\<exists>as. length as = length (callsOn sid calls)
                \<and> (\<forall>a \<in> set as. role a = Assistant)
                \<and> history s = sliceLast 10 (turns (callsOn sid calls) as)"
    by (simp add: historyOf_def)
qed

theorem history_cap_witness:
  "message hello \<noteq> [] \<and> trim (message hello) \<noteq> [] \<and> length (message hello) \<le> 4000
   \<and> (\<exists>resp s'. fst (chatPost envGoogle hello ''u1'' ''t1'' Map.empty world0) = Success resp
          \<and> fst (snd (chatPost envGoogle hello ''u1'' ''t1'' Map.empty world0))
               (resp_session_id resp) = Some s'
          \<and> length (history s') \<le> 10)
   \<and> \<not> (message (msgReq []) \<noteq> [] \<and> trim (message (msgReq [])) \<noteq> []
          \<and> length (message (msgReq [])) \<le> 4000)
   \<and> fst (snd (chatPost envGoogle (msgReq []) ''u1'' ''t1'' Map.empty world0)) = Map.empty
   \<and> map_option (map content \<circ> history) (fst (chatRun sixCalls Map.empty world0) ''s1'')
       = Some [''m2'', ''OK'', ''m3'', ''OK'', ''m4'', ''OK'', ''m5'', ''OK'', ''m6'', ''OK'']
   \<and> (\<exists>s. fst (chatRun sixCalls Map.empty world0) ''s1'' = Some s \<and> length (history s) \<le> 10)"
proof -
  have h1: "message hello \<noteq> []" by (simp add: hello_def)
  have h2: "trim (message hello) \<noteq> []" by (simp add: hello_def trim_def isWhitespace_def)
  have h3: "length (message hello) \<le> 4000" by (simp add: hello_def)
  have h4: "\<not> (message (msgReq []) \<noteq> [] \<and> trim (message (msgReq [])) \<noteq> []
          \<and> length (message (msgReq [])) \<le> 4000)"
    by (simp add: msgReq_def)
  have e: "map_option (map content \<circ> history) (fst (chatRun sixCalls Map.empty world0) ''s1'')
     = Some [''m2'', ''OK'', ''m3'', ''OK'', ''m4'', ''OK'', ''m5'', ''OK'', ''m6'', ''OK'']"
    by code_simp
  then obtain s where s: "fst (chatRun sixCalls Map.empty world0) ''s1'' = Some s" by auto
  have step: "\<exists>resp s'. fst (chatPost envGoogle hello ''u1'' ''t1'' Map.empty world0) = Success resp
          \<and> fst (snd (chatPost envGoogle hello ''u1'' ''t1'' Map.empty world0))
               (resp_session_id resp) = Some s'
          \<and> length (history s') \<le> 10"
    using h1 h2 h3 history_cap [of hello envGoogle "''u1''" "''t1''" Map.empty world0 sixCalls]
    by blast
  have run: "\<exists>s. fst (chatRun sixCalls Map.empty world0) ''s1'' = Some s \<and> length (history s) \<le> 10"
    using s history_cap [of hello envGoogle "''u1''" "''t1''" Map.empty world0 sixCalls]
    by blast
  have bad: "fst (snd (chatPost envGoogle (msgReq []) ''u1'' ''t1'' Map.empty world0)) = Map.empty"
    using h4 history_cap [of "msgReq []" envGoogle "''u1''" "''t1''" Map.empty world0 sixCalls]
    by blast
  show ?thesis using h1 h2 h3 h4 e step run bad by blast
qed

text \<open>
  C8 fails on the code.  The health check asks for the model \<open>provider:auto\<close>;
  \<open>parseModelString\<close> finds none of its substrings in such a name, whichever of the four
  providers it is, and falls back to the first available provider.  With Google answering
  and OpenAI unreachable, both probes go to Google and OpenAI is reported healthy.
\<close>

theorem health_check_wrong_provider:
  "parseModelString svc ''google:auto''
     = (firstProvider svc, getDefaultModelForProvider (firstProvider svc))
   \<and> parseModelString svc ''openai:auto''
     = (firstProvider svc, getDefaultModelForProvider (firstProvider svc))
   \<and> parseModelString svc ''anthropic:auto''
     = (firstProvider svc, getDefaultModelForProvider (firstProvider svc))
   \<and> parseModelString svc ''cohere:auto''
     = (firstProvider svc, getDefaultModelForProvider (firstProvider svc))
   \<and> availableProviders genGoogleOpenAI = [''google'', ''openai'']
   \<and> openai genGoogleOpenAI = Some clientDown
   \<and> fst (healthCheck genGoogleOpenAI world0) ''openai'' = Some True
   \<and> map greq_provider (genLog (snd (healthCheck genGoogleOpenAI world0)))
       = [''google'', ''google'']"
proof (intro conjI)
  show "parseModelString svc ''google:auto''
     = (firstProvider svc, getDefaultModelForProvider (firstProvider svc))"
    by (simp add: parseModelString_def)
  show "parseModelString svc ''openai:auto''
     = (firstProvider svc, getDefaultModelForProvider (firstProvider svc))"
    by (simp add: parseModelString_def)
  show "parseModelString svc ''anthropic:auto''
     = (firstProvider svc, getDefaultModelForProvider (firstProvider svc))"
    by (simp add: parseModelString_def)
  show "parseModelString svc ''cohere:auto''
     = (firstProvider svc, getDefaultModelForProvider (firstProvider svc))"
    by (simp add: parseModelString_def)
  show "availableProviders genGoogleOpenAI = [''google'', ''openai'']"
    by (simp add: genGoogleOpenAI_def initialize_def)
  show "openai genGoogleOpenAI = Some clientDown"
    by (simp add: genGoogleOpenAI_def initialize_def)
  show "fst (healthCheck genGoogleOpenAI world0) ''openai'' = Some True"
    by code_simp
  show "map greq_provider (genLog (snd (healthCheck genGoogleOpenAI world0)))
       = [''google'', ''google'']"
    by code_simp
qed

text \<open>
  C9 fails on the code.  The route pushes the user message onto the history before it
  prepares the context, so the history slice handed to the generation service ends with
  the current user message, and the query is then appended once more.  For the first
  message \<open>hello\<close> of a new session the service receives the system instruction followed
  by \<open>hello\<close> twice.
\<close>

theorem query_sent_twice:
  "buildMessages query (prepareContext (hist @ [userMessageOf query now]) results)
     = \<lparr>role = System,
         content = systemPrompt (prepareContext (hist @ [userMessageOf query now]) results),
         timestamp = None, metadata = None\<rparr>
       # sliceLast 5 hist
       @ [\<lparr>role = User, content = query, timestamp = Some now, metadata = None\<rparr>,
          \<lparr>role = User, content = query, timestamp = None, metadata = None\<rparr>]
   \<and> map (\<lambda>request. map (\<lambda>m. (role m, content m)) (greq_messages request))
        (genLog (snd (snd (chatPost envGoogle hello ''u1'' ''t1'' Map.empty world0))))
     = [[(System, systemPromptHead @ noDocumentsText @ systemPromptTail),
         (User, ''hello''), (User, ''hello'')]]"
proof (intro conjI)
  show "buildMessages query (prepareContext (hist @ [userMessageOf query now]) results)
     = \<lparr>role = System,
         content = systemPrompt (prepareContext (hist @ [userMessageOf query now]) results),
         timestamp = None, metadata = None\<rparr>
       # sliceLast 5 hist
       @ [\<lparr>role = User, content = query, timestamp = Some now, metadata = None\<rparr>,
          \<lparr>role = User, content = query, timestamp = None, metadata = None\<rparr>]"
    by (simp add: buildMessages_def prepareContext_def sliceLast_def userMessageOf_def)
  show "map (\<lambda>request. map (\<lambda>m. (role m, content m)) (greq_messages request))
        (genLog (snd (snd (chatPost envGoogle hello ''u1'' ''t1'' Map.empty world0))))
     = [[(System, systemPromptHead @ noDocumentsText @ systemPromptTail),
         (User, ''hello''), (User, ''hello'')]]"
    by code_simp
qed


end
